theory Spec2Isabelle
  imports Complex_Main "HOL-Library.Monad_Syntax" "HOL-Library.Multiset" "HOL-Library.Sublist"
begin

section \<open>JavaScript values used by the engine\<close>

text \<open>
  The engine is TypeScript. Its \<open>number\<close>s are modelled as exact \<^typ>\<open>real\<close>s (array
  indices and lengths as \<^typ>\<open>nat\<close>). Its strings are modelled as \<^typ>\<open>string\<close>: a
  \<^typ>\<open>char\<close> is a code unit below 256, so that the strings of the model are the
  JavaScript strings over the Latin-1 range. There the no-break space \<open>U+00A0\<close> is white
  space, the capital letters \<open>U+00C0\<close> to \<open>U+00DE\<close> (without the multiplication sign
  \<open>U+00D7\<close>) have lower-case forms 32 code units above them, and the classes \<open>\w\<close> and
  \<open>\d\<close> are ASCII only. A \<open>string | null\<close> is a \<^typ>\<open>string option\<close>.
\<close>

definition isSpace :: "char \<Rightarrow> bool" where
  \<comment> \<open>the class \<open>\s\<close> and the characters removed by \<open>trim\<close>\<close>
  "isSpace c = (c \<in> set [CHR 0x09, CHR 0x0A, CHR 0x0B, CHR 0x0C, CHR 0x0D, CHR 0x20, CHR 0xA0])"

definition isDigit :: "char \<Rightarrow> bool" where
  \<comment> \<open>the class \<open>\d\<close>\<close>
  "isDigit c = (let n = of_char c :: nat in 48 \<le> n \<and> n \<le> 57)"

definition isLetter :: "char \<Rightarrow> bool" where
  "isLetter c = (let n = of_char c :: nat in (65 \<le> n \<and> n \<le> 90) \<or> (97 \<le> n \<and> n \<le> 122))"

definition isWordChar :: "char \<Rightarrow> bool" where
  \<comment> \<open>the class \<open>\w\<close>, that is \<open>[A-Za-z0-9_]\<close>\<close>
  "isWordChar c = (isLetter c \<or> isDigit c \<or> c = CHR ''_'')"

definition isAlnum :: "char \<Rightarrow> bool" where
  \<comment> \<open>the class \<open>[a-z0-9]\<close> under the flag \<open>i\<close>\<close>
  "isAlnum c = (isLetter c \<or> isDigit c)"

definition toLowerChar :: "char \<Rightarrow> char" where
  "toLowerChar c =
     (let n = of_char c :: nat
      in if (65 \<le> n \<and> n \<le> 90) \<or> (192 \<le> n \<and> n \<le> 222 \<and> n \<noteq> 215) then char_of (n + 32) else c)"

definition toLowerCase :: "string \<Rightarrow> string" where
  "toLowerCase s = map toLowerChar s"

definition trim :: "string \<Rightarrow> string" where
  "trim s = rev (dropWhile isSpace (rev (dropWhile isSpace s)))"

text \<open>\<open>s.split(/\s+/)\<close>: a maximal run of white space separates two pieces; a run at
  either end of the string leaves an empty piece there, and the empty string gives one
  empty piece.\<close>

fun splitWs :: "string \<Rightarrow> string list" where
  "splitWs [] = [[]]"
| "splitWs (c # cs) =
     (if isSpace c then
        (case cs of
           [] \<Rightarrow> [] # splitWs cs
         | d # _ \<Rightarrow> if isSpace d then splitWs cs else [] # splitWs cs)
      else
        (case splitWs cs of
           [] \<Rightarrow> [[c]]
         | w # ws \<Rightarrow> (c # w) # ws))"

text \<open>\<open>xs.join(sep)\<close>\<close>

fun join :: "string \<Rightarrow> string list \<Rightarrow> string" where
  "join sep [] = []"
| "join sep [x] = x"
| "join sep (x # y # ys) = x @ sep @ join sep (y # ys)"

text \<open>\<open>Array.prototype.sort\<close> with a comparator is a stable sort: \<open>x\<close> is placed before
  the first element \<open>y\<close> of the already sorted rest with \<open>cmp(x, y) \<le> 0\<close>, so that elements
  that compare equal keep their order.\<close>

fun insertBy :: "('a \<Rightarrow> 'a \<Rightarrow> real) \<Rightarrow> 'a \<Rightarrow> 'a list \<Rightarrow> 'a list" where
  "insertBy cmp x [] = [x]"
| "insertBy cmp x (y # ys) = (if cmp x y \<le> 0 then x # y # ys else y # insertBy cmp x ys)"

definition sortBy :: "('a \<Rightarrow> 'a \<Rightarrow> real) \<Rightarrow> 'a list \<Rightarrow> 'a list" where
  "sortBy cmp xs = foldr (insertBy cmp) xs []"

text \<open>Without a comparator the elements are compared as strings, code unit by code unit.\<close>

fun strLess :: "string \<Rightarrow> string \<Rightarrow> bool" where
  "strLess [] [] = False"
| "strLess [] (y # ys) = True"
| "strLess (x # xs) [] = False"
| "strLess (x # xs) (y # ys) =
     (if (of_char x :: nat) < of_char y then True
      else if (of_char y :: nat) < of_char x then False
      else strLess xs ys)"

definition defaultCompare :: "string \<Rightarrow> string \<Rightarrow> real" where
  "defaultCompare a b = (if strLess a b then - 1 else if strLess b a then 1 else 0)"

text \<open>\<open>new Set(xs)\<close> keeps the first occurrence of every element, in insertion order.\<close>

fun newSet :: "'a list \<Rightarrow> 'a list" where
  "newSet [] = []"
| "newSet (x # xs) = x # newSet (filter (\<lambda>y. y \<noteq> x) xs)"

section \<open>Jaro-Winkler similarity (jaro-winkler.ts)\<close>

text \<open>The inner loop of \<open>jaroSimilarity\<close>: the first \<open>j\<close> of the window that is not yet
  matched in \<open>s2\<close> and carries the character \<open>s1[i]\<close>.\<close>

definition findMatch :: "string \<Rightarrow> bool list \<Rightarrow> char \<Rightarrow> nat \<Rightarrow> nat \<Rightarrow> nat option" where
  "findMatch s2 s2Matches c start end' =
     List.find (\<lambda>j. \<not> (s2Matches ! j \<or> c \<noteq> s2 ! j)) [start..<end']"

text \<open>One round of the outer loop, on the state \<open>(s1Matches, s2Matches, matches)\<close>.\<close>

definition matchStep ::
  "string \<Rightarrow> string \<Rightarrow> nat \<Rightarrow> nat \<Rightarrow> bool list \<times> bool list \<times> nat \<Rightarrow> bool list \<times> bool list \<times> nat" where
  "matchStep s1 s2 matchWindow i st =
     (case st of (s1Matches, s2Matches, matches) \<Rightarrow>
        (let start = i - matchWindow;
             end' = min (i + matchWindow + 1) (length s2)
         in case findMatch s2 s2Matches (s1 ! i) start end' of
              None \<Rightarrow> (s1Matches, s2Matches, matches)
            | Some j \<Rightarrow> (s1Matches[i := True], s2Matches[j := True], matches + 1)))"

definition matchLoop :: "string \<Rightarrow> string \<Rightarrow> nat \<Rightarrow> bool list \<times> bool list \<times> nat" where
  "matchLoop s1 s2 matchWindow =
     fold (matchStep s1 s2 matchWindow) [0..<length s1]
       (replicate (length s1) False, replicate (length s2) False, 0)"

text \<open>The second loop counts transpositions. It walks \<open>s1\<close> and, for every matched
  position, advances \<open>k\<close> to the next matched position of \<open>s2\<close>. The arguments are the
  rest of \<open>s1\<close> from \<open>i\<close> and the rest of \<open>s2\<close> from \<open>k\<close>, each character with its flag.
  When \<open>k\<close> leaves \<open>s2Matches\<close> the \<open>while\<close> never ends (\<open>!undefined\<close> is true): that is
  \<open>None\<close>.\<close>

fun transpositionLoop :: "(bool \<times> char) list \<Rightarrow> (bool \<times> char) list \<Rightarrow> nat option" where
  "transpositionLoop [] r2 = Some 0"
| "transpositionLoop ((f, c) # r1) r2 =
     (if \<not> f then transpositionLoop r1 r2
      else (case dropWhile (\<lambda>(g, d). \<not> g) r2 of
              [] \<Rightarrow> None
            | (g, d) # r2' \<Rightarrow>
                map_option (\<lambda>t. (if c \<noteq> d then 1 else 0) + t) (transpositionLoop r1 r2')))"

definition jaroSimilarity :: "string \<Rightarrow> string \<Rightarrow> real option" where
  "jaroSimilarity s1 s2 =
     (if s1 = s2 then Some 1
      else if s1 = [] \<or> s2 = [] then Some 0
      else if max (length s1) (length s2) div 2 < 1 then Some 0
      else
        (let matchWindow = max (length s1) (length s2) div 2 - 1 in
         case matchLoop s1 s2 matchWindow of (s1Matches, s2Matches, matches) \<Rightarrow>
           if matches = 0 then Some 0
           else
             map_option
               (\<lambda>transpositions.
                  (real matches / real (length s1) +
                   real matches / real (length s2) +
                   (real matches - real transpositions / 2) / real matches) / 3)
               (transpositionLoop (zip s1Matches s1) (zip s2Matches s2))))"

fun commonPrefixLength :: "string \<Rightarrow> string \<Rightarrow> nat" where
  "commonPrefixLength s1 s2 =
     length (takeWhile (\<lambda>(a, b). a = b) (take 4 (zip s1 s2)))"

definition jaroWinklerSimilarityWith :: "string \<Rightarrow> string \<Rightarrow> real \<Rightarrow> real option" where
  "jaroWinklerSimilarityWith s1 s2 scalingFactor =
     (let str1 = trim (toLowerCase s1);
          str2 = trim (toLowerCase s2)
      in if str1 = str2 then Some 1
         else if str1 = [] \<or> str2 = [] then Some 0
         else
           (let p = min (max scalingFactor 0) 0.25;
                prefix = commonPrefixLength str1 str2
            in map_option (\<lambda>jaro. jaro + real prefix * p * (1 - jaro)) (jaroSimilarity str1 str2)))"

text \<open>Every caller leaves \<open>scalingFactor\<close> at its default \<open>0.1\<close>.\<close>

definition jaroWinklerSimilarity :: "string \<Rightarrow> string \<Rightarrow> real option" where
  "jaroWinklerSimilarity s1 s2 = jaroWinklerSimilarityWith s1 s2 0.1"

section \<open>Name normalization (jaro-winkler.ts)\<close>

definition DEFAULT_CONFIG_NAME_SIMILARITY_THRESHOLD :: real where
  "DEFAULT_CONFIG_NAME_SIMILARITY_THRESHOLD = 0.85"

definition DEFAULT_CONFIG_WORD_OVERLAP_BOOST :: real where
  "DEFAULT_CONFIG_WORD_OVERLAP_BOOST = 0.10"

definition DEFAULT_CONFIG_MIN_BOOSTED_THRESHOLD :: real where
  "DEFAULT_CONFIG_MIN_BOOSTED_THRESHOLD = 0.70"

text \<open>\<open>MULTI_WORD_ALIASES\<close>, in the order of the source.\<close>

definition MULTI_WORD_ALIASES :: "(string \<times> string) list" where
  "MULTI_WORD_ALIASES =
     [(''tb hospital'', ''tuberculosis sanatorium''),
      (''tb san'', ''tuberculosis sanatorium''), (''insane asylum'', ''mental hospital''),
      (''lunatic asylum'', ''mental hospital''),
      (''state hospital'', ''state psychiatric hospital''), (''poor house'', ''poorhouse''),
      (''alms house'', ''almshouse''), (''childrens home'', ''childrens home''),
      (''high school'', ''high school''), (''jr high'', ''junior high school''),
      (''middle school'', ''middle school''), (''vocational school'', ''vocational school''),
      (''elementary school'', ''elementary school''), (''post office'', ''post office''),
      (''court house'', ''courthouse''), (''opera house'', ''opera house''),
      (''fair grounds'', ''fairgrounds''), (''race track'', ''racetrack''),
      (''stock yards'', ''stockyards''), (''general electric'', ''general electric''),
      (''general motors'', ''general motors''),
      (''radio corporation america'', ''radio corporation america''),
      (''international business machines'', ''international business machines''),
      (''american telephone telegraph'', ''american telephone telegraph''),
      (''bell telephone'', ''bell telephone''), (''western electric'', ''western electric''),
      (''union carbide'', ''union carbide''), (''bethlehem steel'', ''bethlehem steel''),
      (''us steel'', ''united states steel''),
      (''united states steel'', ''united states steel''),
      (''eastman kodak'', ''eastman kodak''), (''dow chemical'', ''dow chemical''),
      (''goodyear tire'', ''goodyear tire''), (''firestone tire'', ''firestone tire''),
      (''goodrich tire'', ''goodrich tire''),
      (''champion spark plug'', ''champion spark plug''),
      (''ac spark plug'', ''ac spark plug''), (''delco electronics'', ''delco electronics''),
      (''fisher body'', ''fisher body''),
      (''pennsylvania railroad'', ''pennsylvania railroad''),
      (''new york central'', ''new york central''), (''baltimore ohio'', ''baltimore ohio''),
      (''erie railroad'', ''erie railroad''),
      (''delaware lackawanna'', ''delaware lackawanna''),
      (''lehigh valley'', ''lehigh valley''), (''reading railroad'', ''reading railroad''),
      (''southern railway'', ''southern railway''),
      (''northern pacific'', ''northern pacific''),
      (''southern pacific'', ''southern pacific''), (''union pacific'', ''union pacific''),
      (''santa fe'', ''santa fe''), (''burlington railroad'', ''burlington railroad''),
      (''milwaukee road'', ''milwaukee road''), (''great northern'', ''great northern''),
      (''canadian pacific'', ''canadian pacific''),
      (''canadian national'', ''canadian national''), (''ford motor'', ''ford motor''),
      (''general motors truck'', ''general motors truck''),
      (''american motors'', ''american motors''), (''hudson motor'', ''hudson motor''),
      (''nash motors'', ''nash motors''), (''kaiser motors'', ''kaiser motors''),
      (''willys overland'', ''willys overland''), (''air force base'', ''air force base''),
      (''naval air station'', ''naval air station''), (''army base'', ''army base''),
      (''national guard armory'', ''national guard armory''),
      (''power plant'', ''power plant''), (''power house'', ''powerhouse''),
      (''generating station'', ''generating station''),
      (''pumping station'', ''pumping station''), (''water works'', ''waterworks''),
      (''sewage treatment plant'', ''sewage treatment plant''), (''gas works'', ''gasworks''),
      (''grain elevator'', ''grain elevator''), (''freight depot'', ''freight depot''),
      (''packing plant'', ''packing plant''), (''canning factory'', ''canning factory''),
      (''textile mill'', ''textile mill''), (''cotton mill'', ''cotton mill''),
      (''woolen mill'', ''woolen mill''), (''paper mill'', ''paper mill''),
      (''lumber mill'', ''lumber mill''), (''iron foundry'', ''iron foundry''),
      (''coal mine'', ''coal mine''), (''coal breaker'', ''coal breaker''),
      (''mine tipple'', ''mine tipple''), (''mine shaft'', ''mine shaft''),
      (''stone quarry'', ''stone quarry''), (''gravel pit'', ''gravel pit''),
      (''dairy farm'', ''dairy farm''), (''grange hall'', ''grange hall''),
      (''swimming pool'', ''swimming pool''), (''county jail'', ''county jail''),
      (''state prison'', ''state prison''), (''medical center'', ''medical center''),
      (''nursing home'', ''nursing home''), (''orphan asylum'', ''orphan asylum'')]"

text \<open>\<open>SINGLE_WORD_ALIASES\<close>; no key occurs twice.\<close>

definition SINGLE_WORD_ALIASES :: "(string \<times> string) list" where
  "SINGLE_WORD_ALIASES =
     [(''elem'', ''elementary''), (''hs'', ''high school''), (''highschool'', ''high school''),
      (''jhs'', ''junior high''), (''ms'', ''middle school''), (''univ'', ''university''),
      (''coll'', ''college''), (''acad'', ''academy''), (''inst'', ''institute''),
      (''sem'', ''seminary''), (''voc'', ''vocational''), (''tech'', ''technical''),
      (''hosp'', ''hospital''), (''san'', ''sanatorium''), (''sanat'', ''sanatorium''),
      (''psych'', ''psychiatric''), (''infirm'', ''infirmary''), (''med'', ''medical''),
      (''ctr'', ''center''), (''cntr'', ''center''), (''rehab'', ''rehabilitation''),
      (''nrsg'', ''nursing''), (''poorhouse'', ''poorhouse''), (''almshouse'', ''almshouse''),
      (''orphanage'', ''orphan asylum''), (''mfg'', ''manufacturing''), (''fac'', ''factory''),
      (''fact'', ''factory''), (''plt'', ''plant''), (''plnt'', ''plant''),
      (''wks'', ''works''), (''wrks'', ''works''), (''fdry'', ''foundry''),
      (''foundry'', ''foundry''), (''mill'', ''mill''), (''furn'', ''furnace''),
      (''smelt'', ''smelter''), (''ref'', ''refinery''), (''refin'', ''refinery''),
      (''distill'', ''distillery''), (''brew'', ''brewery''), (''packing'', ''packing''),
      (''cannery'', ''canning factory''), (''textile'', ''textile''), (''cotton'', ''cotton''),
      (''woolen'', ''woolen''), (''paper'', ''paper''), (''lumber'', ''lumber''),
      (''saw'', ''sawmill''), (''sawmill'', ''sawmill''), (''grain'', ''grain''),
      (''elev'', ''elevator''), (''warehouse'', ''warehouse''), (''whse'', ''warehouse''),
      (''depot'', ''depot''), (''mine'', ''mine''), (''colliery'', ''coal mine''),
      (''shaft'', ''shaft''), (''breaker'', ''breaker''), (''tipple'', ''tipple''),
      (''quarry'', ''quarry''), (''pit'', ''pit''), (''pwr'', ''power''),
      (''power'', ''power''), (''powerhouse'', ''powerhouse''), (''gen'', ''generating''),
      (''elec'', ''electric''), (''hydro'', ''hydroelectric''), (''sub'', ''substation''),
      (''substa'', ''substation''), (''pump'', ''pumping''), (''wtr'', ''water''),
      (''wwtp'', ''sewage treatment''), (''sewage'', ''sewage''), (''gas'', ''gas''),
      (''ch'', ''church''), (''chur'', ''church''), (''cath'', ''catholic''),
      (''meth'', ''methodist''), (''presb'', ''presbyterian''), (''bapt'', ''baptist''),
      (''luth'', ''lutheran''), (''episc'', ''episcopal''), (''cong'', ''congregational''),
      (''syn'', ''synagogue''), (''cem'', ''cemetery''), (''cemy'', ''cemetery''),
      (''mem'', ''memorial''), (''chap'', ''chapel''), (''par'', ''parish''),
      (''dept'', ''department''), (''store'', ''store''), (''htl'', ''hotel''),
      (''hotel'', ''hotel''), (''inn'', ''inn''), (''thtr'', ''theater''),
      (''theater'', ''theater''), (''theatre'', ''theater''), (''opera'', ''opera''),
      (''hall'', ''hall''), (''aud'', ''auditorium''), (''lib'', ''library''),
      (''museum'', ''museum''), (''mus'', ''museum''), (''ct'', ''court''),
      (''crt'', ''court''), (''courthouse'', ''courthouse''), (''jail'', ''jail''),
      (''prison'', ''prison''), (''pen'', ''penitentiary''), (''armory'', ''armory''),
      (''po'', ''post office''), (''stn'', ''station''), (''sta'', ''station''),
      (''term'', ''terminal''), (''pk'', ''park''), (''park'', ''park''), (''pool'', ''pool''),
      (''stadium'', ''stadium''), (''arena'', ''arena''), (''fairgrounds'', ''fairgrounds''),
      (''race'', ''race''), (''racetrack'', ''racetrack''), (''casino'', ''casino''),
      (''resort'', ''resort''), (''camp'', ''camp''), (''lodge'', ''lodge''),
      (''barn'', ''barn''), (''silo'', ''silo''), (''dairy'', ''dairy''), (''farm'', ''farm''),
      (''ranch'', ''ranch''), (''grange'', ''grange''), (''creamery'', ''creamery''),
      (''stockyard'', ''stockyards''), (''stockyards'', ''stockyards''),
      (''slaughter'', ''slaughterhouse''), (''slaughterhouse'', ''slaughterhouse''),
      (''afb'', ''air force base''), (''nas'', ''naval air station''), (''army'', ''army''),
      (''ft'', ''fort''), (''fort'', ''fort''), (''arsenal'', ''arsenal''),
      (''barracks'', ''barracks''), (''chevy'', ''chevrolet''), (''chev'', ''chevrolet''),
      (''chevrolet'', ''chevrolet''), (''cad'', ''cadillac''), (''caddy'', ''cadillac''),
      (''cadillac'', ''cadillac''), (''olds'', ''oldsmobile''),
      (''oldsmobile'', ''oldsmobile''), (''pont'', ''pontiac''), (''pontiac'', ''pontiac''),
      (''buick'', ''buick''), (''gmc'', ''general motors truck''), (''ford'', ''ford''),
      (''merc'', ''mercury''), (''mercury'', ''mercury''), (''linc'', ''lincoln''),
      (''lincoln'', ''lincoln''), (''chrys'', ''chrysler''), (''chrysler'', ''chrysler''),
      (''plym'', ''plymouth''), (''plymouth'', ''plymouth''), (''dodge'', ''dodge''),
      (''jeep'', ''jeep''), (''amc'', ''american motors''), (''stude'', ''studebaker''),
      (''studebaker'', ''studebaker''), (''pack'', ''packard''), (''packard'', ''packard''),
      (''hudson'', ''hudson''), (''nash'', ''nash''), (''kaiser'', ''kaiser''),
      (''willys'', ''willys''), (''ge'', ''general electric''), (''gm'', ''general motors''),
      (''rca'', ''radio corporation america''), (''ibm'', ''international business machines''),
      (''att'', ''american telephone telegraph''),
      (''at&t'', ''american telephone telegraph''), (''bell'', ''bell telephone''),
      (''westinghouse'', ''westinghouse''), (''kodak'', ''eastman kodak''),
      (''dupont'', ''dupont''), (''dow'', ''dow chemical''),
      (''bethlehem'', ''bethlehem steel''), (''alcoa'', ''aluminum company america''),
      (''goodyear'', ''goodyear''), (''firestone'', ''firestone''), (''bfg'', ''goodrich''),
      (''champion'', ''champion''), (''delco'', ''delco''), (''fisher'', ''fisher''),
      (''rr'', ''railroad''), (''ry'', ''railway''), (''rwy'', ''railway''),
      (''rrd'', ''railroad''), (''penn'', ''pennsylvania railroad''),
      (''prr'', ''pennsylvania railroad''), (''nyc'', ''new york central''),
      (''b&o'', ''baltimore ohio''), (''bando'', ''baltimore ohio''), (''erie'', ''erie''),
      (''lackawanna'', ''lackawanna''), (''lehigh'', ''lehigh''), (''reading'', ''reading''),
      (''sou'', ''southern''), (''southern'', ''southern''), (''np'', ''northern pacific''),
      (''sp'', ''southern pacific''), (''up'', ''union pacific''), (''sf'', ''santa fe''),
      (''atsf'', ''santa fe''), (''cb&q'', ''burlington''), (''burlington'', ''burlington''),
      (''milw'', ''milwaukee''), (''gn'', ''great northern''), (''cpr'', ''canadian pacific''),
      (''cnr'', ''canadian national''), (''n'', ''north''), (''no'', ''north''),
      (''s'', ''south''), (''so'', ''south''), (''e'', ''east''), (''w'', ''west''),
      (''ne'', ''northeast''), (''nw'', ''northwest''), (''se'', ''southeast''),
      (''sw'', ''southwest''), (''bros'', ''brothers''), (''corp'', ''corporation''),
      (''inc'', ''incorporated''), (''co'', ''company''), (''ltd'', ''limited''),
      (''assn'', ''association''), (''assoc'', ''association''), (''bldg'', ''building''),
      (''hq'', ''headquarters''), (''div'', ''division''), (''natl'', ''national''),
      (''nat'l'', ''national''), (''intl'', ''international''), (''int'l'', ''international''),
      (''amer'', ''american''), (''am'', ''american''), (''mt'', ''mount''),
      (''mtn'', ''mountain''), (''lk'', ''lake''), (''riv'', ''river''), (''rvr'', ''river''),
      (''ck'', ''creek''), (''crk'', ''creek''), (''spg'', ''springs''),
      (''spgs'', ''springs''), (''fls'', ''falls''), (''falls'', ''falls''),
      (''hts'', ''heights''), (''jct'', ''junction''), (''junc'', ''junction''),
      (''xing'', ''crossing''), (''pt'', ''point''), (''hbr'', ''harbor''),
      (''cty'', ''county''), (''twp'', ''township''), (''boro'', ''borough''),
      (''vlg'', ''village''), (''ave'', ''avenue''), (''blvd'', ''boulevard''),
      (''rd'', ''road''), (''dr'', ''drive''), (''ln'', ''lane''), (''pl'', ''place''),
      (''cir'', ''circle''), (''hwy'', ''highway''), (''pkwy'', ''parkway''),
      (''tpke'', ''turnpike'')]"

text \<open>The abbreviations of \<open>PERIOD_ABBREVIATIONS\<close>: the entry \<open>(''st'', ''saint '')\<close> stands
  for the pair \<open>[/\bst\.\s*/gi, 'saint ']\<close>.\<close>

definition PERIOD_ABBREVIATIONS :: "(string \<times> string) list" where
  "PERIOD_ABBREVIATIONS =
     [(''st'', ''saint ''), (''mt'', ''mount ''), (''hosp'', ''hospital ''),
      (''mfg'', ''manufacturing ''), (''co'', ''company ''), (''corp'', ''corporation ''),
      (''inc'', ''incorporated ''), (''ave'', ''avenue ''), (''blvd'', ''boulevard ''),
      (''rd'', ''road ''), (''bros'', ''brothers ''), (''dept'', ''department ''),
      (''dr'', ''doctor ''), (''jr'', ''junior ''), (''sr'', ''senior '')]"

text \<open>\<open>s.replace(regex, replacement)\<close> with the flag \<open>g\<close>: the string is scanned from the
  left; where the regular expression matches, the match is replaced and the scan goes on
  behind it. \<open>m prev rest\<close> is the length of the match at the position whose preceding
  character is \<open>prev\<close> and whose remaining text is \<open>rest\<close>; every expression used here
  matches at least one character. \<open>skip\<close> counts the characters of the current match
  that are still to be passed over.\<close>

fun replaceAllFrom ::
  "(char option \<Rightarrow> string \<Rightarrow> nat option) \<Rightarrow> string \<Rightarrow> nat \<Rightarrow> char option \<Rightarrow> string \<Rightarrow> string" where
  "replaceAllFrom m repl skip prev [] = []"
| "replaceAllFrom m repl skip prev (c # cs) =
     (if skip > 0 then replaceAllFrom m repl (skip - 1) (Some c) cs
      else (case m prev (c # cs) of
              Some n \<Rightarrow> repl @ replaceAllFrom m repl (n - 1) (Some c) cs
            | None \<Rightarrow> c # replaceAllFrom m repl 0 (Some c) cs))"

definition replaceAll :: "(char option \<Rightarrow> string \<Rightarrow> nat option) \<Rightarrow> string \<Rightarrow> string \<Rightarrow> string" where
  "replaceAll m repl s = replaceAllFrom m repl 0 None s"

text \<open>The assertion \<open>\b\<close> between two neighbouring characters (\<open>None\<close> at either end
  of the string): exactly one of them is a word character.\<close>

definition wordBoundary :: "char option \<Rightarrow> char option \<Rightarrow> bool" where
  "wordBoundary a b =
     ((case a of None \<Rightarrow> False | Some c \<Rightarrow> isWordChar c) \<noteq>
      (case b of None \<Rightarrow> False | Some c \<Rightarrow> isWordChar c))"

definition headOption :: "'a list \<Rightarrow> 'a option" where
  "headOption xs = (case xs of [] \<Rightarrow> None | x # _ \<Rightarrow> Some x)"

definition lastOption :: "'a list \<Rightarrow> 'a option" where
  "lastOption xs = headOption (rev xs)"

text \<open>A literal matched under the flag \<open>i\<close>.\<close>

definition startsWithCI :: "string \<Rightarrow> string \<Rightarrow> bool" where
  "startsWithCI lit s = (length lit \<le> length s \<and> toLowerCase (take (length lit) s) = toLowerCase lit)"

text \<open>\<open>/\b<abbr>\.\s*/gi\<close>\<close>

definition matchPeriodAbbreviation :: "string \<Rightarrow> char option \<Rightarrow> string \<Rightarrow> nat option" where
  "matchPeriodAbbreviation abbr prev rest =
     (if wordBoundary prev (headOption rest) \<and> startsWithCI (abbr @ ''.'') rest
      then Some (length abbr + 1 + length (takeWhile isSpace (drop (length abbr + 1) rest)))
      else None)"

text \<open>\<open>new RegExp(`\\b${escapeRegex(pattern)}\\b`, 'gi')\<close>; the patterns of
  \<open>MULTI_WORD_ALIASES\<close> are made of letters and blanks, which \<open>escapeRegex\<close> leaves as
  they are.\<close>

definition matchWholePhrase :: "string \<Rightarrow> char option \<Rightarrow> string \<Rightarrow> nat option" where
  "matchWholePhrase pattern prev rest =
     (if pattern \<noteq> [] \<and> wordBoundary prev (headOption rest) \<and> startsWithCI pattern rest \<and>
         wordBoundary (lastOption (take (length pattern) rest)) (headOption (drop (length pattern) rest))
      then Some (length pattern)
      else None)"

text \<open>\<open>/\s+/g\<close>\<close>

definition matchSpaces :: "char option \<Rightarrow> string \<Rightarrow> nat option" where
  "matchSpaces prev rest =
     (let n = length (takeWhile isSpace rest) in if n > 0 then Some n else None)"

text \<open>\<open>s.replace(/^(the|a|an)\s+/i, '')\<close>: the alternatives are tried in this order, and
  one is taken only when white space follows it.\<close>

definition stripLeadingArticle :: "string \<Rightarrow> string" where
  "stripLeadingArticle s =
     (case List.find
             (\<lambda>article. startsWithCI article s \<and>
                (case drop (length article) s of [] \<Rightarrow> False | c # _ \<Rightarrow> isSpace c))
             [''the'', ''a'', ''an''] of
        None \<Rightarrow> s
      | Some article \<Rightarrow> dropWhile isSpace (drop (length article) s))"

text \<open>\<open>SINGLE_WORD_ALIASES[cleanWord]\<close> reads a plain object, so that the two inherited
  properties with a lower-case name are found as well; their values are truthy and are
  turned into strings by the concatenation with the suffix.\<close>

definition lookupSingleWordAlias :: "string \<Rightarrow> string option" where
  "lookupSingleWordAlias cleanWord =
     (case map_of SINGLE_WORD_ALIASES cleanWord of
        Some expansion \<Rightarrow> Some expansion
      | None \<Rightarrow>
          if cleanWord = ''constructor'' then Some ''function Object() { [native code] }''
          else if cleanWord = ''__proto__'' then Some ''[object Object]''
          else None)"

definition expandWord :: "string \<Rightarrow> string" where
  "expandWord word =
     (let cleanWord = (case lastOption word of
                         None \<Rightarrow> word
                       | Some c \<Rightarrow> if c \<in> set ''.,;:!?'' then butlast word else word);
          suffix = drop (length cleanWord) word
      in case lookupSingleWordAlias cleanWord of
           Some expansion \<Rightarrow> expansion @ suffix
         | None \<Rightarrow> word)"

text \<open>The local constant \<open>sortedMultiWord\<close> of \<open>normalizeName\<close>: the longer patterns
  first.\<close>

definition sortedMultiWord :: "(string \<times> string) list" where
  "sortedMultiWord = sortBy (\<lambda>a b. real (length (fst b)) - real (length (fst a))) MULTI_WORD_ALIASES"

definition normalizeName :: "string \<Rightarrow> string" where
  "normalizeName name =
     (if name = [] then []
      else
        (let normalized = trim (toLowerCase name);
             normalized = stripLeadingArticle normalized;
             normalized = fold (\<lambda>(abbr, replacement) s. replaceAll (matchPeriodAbbreviation abbr) replacement s)
                            PERIOD_ABBREVIATIONS normalized;
             normalized = fold (\<lambda>(pattern, replacement) s. replaceAll (matchWholePhrase pattern) replacement s)
                            sortedMultiWord normalized;
             words = splitWs normalized;
             expandedWords = map expandWord words;
             normalized = join '' '' expandedWords
         in trim (replaceAll matchSpaces '' '' normalized)))"

section \<open>Word-overlap boost (jaro-winkler.ts)\<close>

record WordOverlap =
  exactMatches :: "string list"
  overlapRatio :: real
  totalUniqueWords :: nat
  shouldBoost :: bool

definition calculateWordOverlap :: "string \<Rightarrow> string \<Rightarrow> WordOverlap" where
  "calculateWordOverlap name1 name2 =
     (if name1 = [] \<or> name2 = []
      then \<lparr>exactMatches = [], overlapRatio = 0, totalUniqueWords = 0, shouldBoost = False\<rparr>
      else
        (let words1 = newSet (filter (\<lambda>w. length w \<ge> 2) (splitWs name1));
             words2 = newSet (filter (\<lambda>w. length w \<ge> 2) (splitWs name2));
             exact = filter (\<lambda>word. word \<in> set words2) words1;
             allWords = newSet (words1 @ words2);
             total = length allWords;
             ratio = (if total > 0 then real (length exact) / real total else 0)
         in \<lparr>exactMatches = exact, overlapRatio = ratio, totalUniqueWords = total,
             shouldBoost = (length exact \<ge> 1 \<and> ratio \<ge> 0.25)\<rparr>))"

definition getAdjustedThreshold :: "string \<Rightarrow> string \<Rightarrow> real \<Rightarrow> real" where
  "getAdjustedThreshold name1 name2 baseThreshold =
     (let normalized1 = normalizeName name1;
          normalized2 = normalizeName name2;
          overlap = calculateWordOverlap normalized1 normalized2
      in if shouldBoost overlap
         then max (baseThreshold - DEFAULT_CONFIG_WORD_OVERLAP_BOOST) DEFAULT_CONFIG_MIN_BOOSTED_THRESHOLD
         else baseThreshold)"

definition normalizedSimilarity :: "string \<Rightarrow> string \<Rightarrow> real option" where
  "normalizedSimilarity name1 name2 = jaroWinklerSimilarity (normalizeName name1) (normalizeName name2)"

definition isSmartMatch :: "string \<Rightarrow> string \<Rightarrow> real \<Rightarrow> bool option" where
  "isSmartMatch name1 name2 baseThreshold =
     map_option (\<lambda>similarity. similarity \<ge> getAdjustedThreshold name1 name2 baseThreshold)
       (normalizedSimilarity name1 name2)"

section \<open>Token set ratio (token-set-ratio.ts)\<close>

definition tokenize :: "string \<Rightarrow> string list" where
  "tokenize str =
     (if str = [] then []
      else
        filter (\<lambda>token. length token > 1 \<or> (case token of [c] \<Rightarrow> isDigit c | _ \<Rightarrow> False))
          (filter (\<lambda>token. length token > 0)
            (splitWs
              (map (\<lambda>c. if \<not> (isWordChar c \<or> isSpace c) then CHR '' '' else c)
                (toLowerCase str)))))"

definition sortedTokenString :: "string list \<Rightarrow> string" where
  "sortedTokenString tokens = join '' '' (sortBy defaultCompare tokens)"

definition tokenSortRatio :: "string \<Rightarrow> string \<Rightarrow> real option" where
  "tokenSortRatio s1 s2 =
     (let tokens1 = tokenize s1;
          tokens2 = tokenize s2
      in if length tokens1 = 0 \<and> length tokens2 = 0 then Some 1
         else if length tokens1 = 0 \<or> length tokens2 = 0 then Some 0
         else jaroWinklerSimilarity (sortedTokenString tokens1) (sortedTokenString tokens2))"

text \<open>\<open>scores\<close> collects up to three similarities; a comparison is skipped when one of
  its strings is empty. \<open>Math.max(...scores, 0)\<close> is the fold of \<open>max\<close> from \<open>0\<close>.\<close>

definition tokenSetRatio :: "string \<Rightarrow> string \<Rightarrow> real option" where
  "tokenSetRatio s1 s2 =
     (let tokens1 = newSet (tokenize s1);
          tokens2 = newSet (tokenize s2)
      in if length tokens1 = 0 \<and> length tokens2 = 0 then Some 1
         else if length tokens1 = 0 \<or> length tokens2 = 0 then Some 0
         else
           (let intersection = filter (\<lambda>token. token \<in> set tokens2) tokens1;
                remainder1 = filter (\<lambda>token. token \<notin> set tokens2) tokens1;
                remainder2 = filter (\<lambda>token. token \<notin> set tokens1) tokens2;
                intersectionSorted = sortedTokenString intersection;
                combined1 = sortedTokenString (intersection @ remainder1);
                combined2 = sortedTokenString (intersection @ remainder2)
            in if length intersection = 0 then tokenSortRatio s1 s2
               else do {
                 scores1 \<leftarrow> (if intersectionSorted \<noteq> [] \<and> combined1 \<noteq> []
                              then map_option (\<lambda>x. [x]) (jaroWinklerSimilarity intersectionSorted combined1)
                              else Some []);
                 scores2 \<leftarrow> (if intersectionSorted \<noteq> [] \<and> combined2 \<noteq> []
                              then map_option (\<lambda>x. [x]) (jaroWinklerSimilarity intersectionSorted combined2)
                              else Some []);
                 scores3 \<leftarrow> (if combined1 \<noteq> [] \<and> combined2 \<noteq> []
                              then map_option (\<lambda>x. [x]) (jaroWinklerSimilarity combined1 combined2)
                              else Some []);
                 (if intersectionSorted = combined1 \<and> combined1 = combined2 then Some 1
                  else Some (fold max (scores1 @ scores2 @ scores3) 0))
               }))"

section \<open>Blocking words and generic names (token-set-ratio.ts)\<close>

definition GENERIC_NAMES :: "string list" where
  "GENERIC_NAMES =
     [''house'', ''church'', ''school'', ''factory'', ''industrial'', ''industry'', ''building'',
      ''farm'', ''barn'', ''mill'', ''warehouse'', ''store'', ''shop'', ''hotel'', ''motel'',
      ''hospital'', ''office'', ''station'', ''tower'', ''plant'', ''center'', ''site'', ''place'',
      ''location'', ''point'', ''cars'', ''trains'', ''trucks'']"

definition BLOCKING_WORDS_directions :: "string list" where
  "BLOCKING_WORDS_directions =
     [''north'', ''south'', ''east'', ''west'', ''upper'', ''lower'', ''inner'', ''outer'']"

definition BLOCKING_WORDS_temporal :: "string list" where
  "BLOCKING_WORDS_temporal =
     [''old'', ''new'', ''former'', ''current'', ''original'', ''modern'', ''historic'']"

definition BLOCKING_WORDS_numbered :: "string list" where
  "BLOCKING_WORDS_numbered =
     [''first'', ''second'', ''third'', ''fourth'', ''fifth'', ''1st'', ''2nd'', ''3rd'', ''4th'', ''5th'']"

text \<open>\<open>IDENTIFIER_PATTERNS\<close>: the keyword \<open>kw\<close> stands for \<open>/\b<kw>\s*[a-z0-9]+\b/i\<close>.\<close>

definition IDENTIFIER_PATTERNS :: "string list" where
  "IDENTIFIER_PATTERNS =
     [''building'', ''unit'', ''wing'', ''ward'', ''phase'', ''section'', ''block'', ''lot'']"

definition SUGGESTION_GENERIC_WORDS :: "string list" where
  "SUGGESTION_GENERIC_WORDS =
     [''house'', ''houses'', ''church'', ''churches'', ''school'', ''schools'',
      ''factory'', ''industrial'', ''industry'', ''building'', ''farm'', ''farms'',
      ''barn'', ''mill'', ''warehouse'', ''store'', ''shop'', ''hotel'', ''motel'',
      ''hospital'', ''office'', ''station'', ''tower'', ''plant'', ''center'',
      ''site'', ''place'', ''location'', ''point'', ''cars'', ''trains'', ''trucks'',
      ''quarry'', ''cabin'', ''greenhouse'', ''theater'', ''trails'', ''trail'']"

definition SUGGESTION_REGION_WORDS :: "string list" where
  "SUGGESTION_REGION_WORDS =
     [''cny'', ''wny'', ''nny'', ''eny'', ''pa'', ''ny'', ''in'',
      ''fingerlakes'', ''buffalo'', ''syracuse'', ''rochester'', ''binghamton'',
      ''pittsburgh'', ''albany'', ''sayre'', ''elmira'', ''waterloo'', ''lockport'',
      ''cortland'', ''maine'', ''ohio'']"

text \<open>The match of \<open>/\b<kw>\s*[a-z0-9]+\b/i\<close> at one position. The white space and the
  run of letters and digits are taken as long as they are; giving characters back never
  helps, since inside the run there is no word boundary and a shorter white space is
  followed by white space.\<close>

definition matchIdentifier :: "string \<Rightarrow> char option \<Rightarrow> string \<Rightarrow> nat option" where
  "matchIdentifier kw prev rest =
     (let afterKw = drop (length kw) rest;
          spaces = takeWhile isSpace afterKw;
          afterSpaces = dropWhile isSpace afterKw;
          run = takeWhile isAlnum afterSpaces;
          afterRun = dropWhile isAlnum afterSpaces
      in if wordBoundary prev (headOption rest) \<and> startsWithCI kw rest \<and> run \<noteq> [] \<and>
            wordBoundary (lastOption run) (headOption afterRun)
         then Some (length kw + length spaces + length run)
         else None)"

text \<open>\<open>s.match(regex)\<close> without the flag \<open>g\<close>: the text of the leftmost match.\<close>

fun firstMatch :: "(char option \<Rightarrow> string \<Rightarrow> nat option) \<Rightarrow> char option \<Rightarrow> string \<Rightarrow> string option" where
  "firstMatch m prev [] = None"
| "firstMatch m prev (c # cs) =
     (case m prev (c # cs) of
        Some n \<Rightarrow> Some (take n (c # cs))
      | None \<Rightarrow> firstMatch m (Some c) cs)"

record BlockingWords =
  directions :: "string list"
  temporal :: "string list"
  numbered :: "string list"
  identifiers :: "string list"

definition extractBlockingWords :: "string \<Rightarrow> BlockingWords" where
  "extractBlockingWords nm =
     (let tokens = tokenize nm in
      \<lparr>directions = newSet (filter (\<lambda>token. token \<in> set BLOCKING_WORDS_directions) tokens),
       temporal = newSet (filter (\<lambda>token. token \<in> set BLOCKING_WORDS_temporal) tokens),
       numbered = newSet (filter (\<lambda>token. token \<in> set BLOCKING_WORDS_numbered) tokens),
       identifiers =
         List.map_filter (\<lambda>kw. firstMatch (matchIdentifier kw) None (toLowerCase nm))
           IDENTIFIER_PATTERNS\<rparr>)"

record BlockingConflict =
  hasConflict :: bool
  conflictType :: "string option"
  details :: "string option"

text \<open>The two nested \<open>for\<close> loops over one category: the first pair of different
  values, the outer loop over the first name.\<close>

definition firstDifferent :: "string list \<Rightarrow> string list \<Rightarrow> (string \<times> string) option" where
  "firstDifferent xs ys = List.find (\<lambda>(a, b). a \<noteq> b) (List.product xs ys)"

definition conflictOf :: "string \<Rightarrow> string \<times> string \<Rightarrow> BlockingConflict" where
  "conflictOf kind p =
     \<lparr>hasConflict = True, conflictType = Some kind, details = Some (fst p @ '' vs '' @ snd p)\<rparr>"

definition checkBlockingConflict :: "string \<Rightarrow> string \<Rightarrow> BlockingConflict" where
  "checkBlockingConflict name1 name2 =
     (let blocking1 = extractBlockingWords name1;
          blocking2 = extractBlockingWords name2
      in case firstDifferent (directions blocking1) (directions blocking2) of
           Some p \<Rightarrow> conflictOf ''direction'' p
         | None \<Rightarrow>
        (case firstDifferent (temporal blocking1) (temporal blocking2) of
           Some p \<Rightarrow> conflictOf ''temporal'' p
         | None \<Rightarrow>
        (case firstDifferent (numbered blocking1) (numbered blocking2) of
           Some p \<Rightarrow> conflictOf ''numbered'' p
         | None \<Rightarrow>
        (case firstDifferent (identifiers blocking1) (identifiers blocking2) of
           Some p \<Rightarrow> conflictOf ''identifier'' p
         | None \<Rightarrow> \<lparr>hasConflict = False, conflictType = None, details = None\<rparr>))))"

definition isGenericName :: "string \<Rightarrow> bool" where
  "isGenericName nm =
     (if nm = [] then True
      else
        (let tokens = tokenize nm in
         if length tokens = 1 \<and> tokens ! 0 \<in> set GENERIC_NAMES then True
         else if length tokens = 2 \<and>
                 list_ex (\<lambda>t. t \<in> set SUGGESTION_GENERIC_WORDS) tokens \<and>
                 list_ex (\<lambda>t. t \<in> set SUGGESTION_REGION_WORDS) tokens then True
         else False))"

section \<open>Great-circle distance (geo-utils.ts)\<close>

text \<open>\<open>Math.atan2(y, x)\<close> on the reals.\<close>

definition atan2 :: "real \<Rightarrow> real \<Rightarrow> real" where
  "atan2 y x =
     (if x > 0 then arctan (y / x)
      else if x < 0 then (if y \<ge> 0 then arctan (y / x) + pi else arctan (y / x) - pi)
      else if y > 0 then pi / 2
      else if y < 0 then - pi / 2
      else 0)"

definition toRad :: "real \<Rightarrow> real" where
  "toRad deg = deg * pi / 180"

definition haversineDistance :: "real \<Rightarrow> real \<Rightarrow> real \<Rightarrow> real \<Rightarrow> real" where
  "haversineDistance lat1 lng1 lat2 lng2 =
     (let R = 6371000;
          dLat = toRad (lat2 - lat1);
          dLng = toRad (lng2 - lng1);
          a = (sin (dLat / 2))\<^sup>2 + cos (toRad lat1) * cos (toRad lat2) * (sin (dLng / 2))\<^sup>2;
          c = 2 * atan2 (sqrt a) (sqrt (1 - a))
      in R * c)"

section \<open>Duplicate detection (dedup.ts)\<close>

record ParsedMapPoint =
  name :: "string option"
  description :: "string option"
  lat :: real
  lng :: real
  state :: "string option"
  category :: "string option"
  rawMetadata :: "(string \<times> string) list option"

record DedupConfig =
  gpsThreshold :: real
  nameThreshold :: real
  genericGpsThreshold :: real
  requireGps :: bool
  useSmartMatch :: bool
  maxClusterSize :: real
  maxClusterDiameter :: real
  minConfidence :: real

definition DEFAULT_DEDUP_CONFIG :: DedupConfig where
  "DEFAULT_DEDUP_CONFIG =
     \<lparr>gpsThreshold = 50,
      nameThreshold = DEFAULT_CONFIG_NAME_SIMILARITY_THRESHOLD,
      genericGpsThreshold = 25,
      requireGps = False,
      useSmartMatch = True,
      maxClusterSize = 20,
      maxClusterDiameter = 500,
      minConfidence = 60\<rparr>"

datatype MatchType = Gps | Name | Both | NoMatch

record MatchResult =
  index1 :: nat
  index2 :: nat
  gpsDistance :: real
  nameSimilarity :: real
  tokenSetRatio_of :: real
  blockingConflict :: bool
  isGeneric :: bool
  matchType :: MatchType
  confidence :: real

text \<open>\<open>point.name || ''\<close>\<close>

definition nameOrEmpty :: "ParsedMapPoint \<Rightarrow> string" where
  "nameOrEmpty point = (case name point of None \<Rightarrow> [] | Some s \<Rightarrow> s)"

text \<open>The two scores \<open>(nameSimilarity, tsr)\<close> of \<open>checkDuplicate\<close>: both stay \<open>0\<close> unless
  both names are non-empty.\<close>

definition nameScores :: "string \<Rightarrow> string \<Rightarrow> DedupConfig \<Rightarrow> (real \<times> real) option" where
  "nameScores name1 name2 config =
     (if name1 \<noteq> [] \<and> name2 \<noteq> [] then do {
        similarity \<leftarrow> (if useSmartMatch config then normalizedSimilarity name1 name2
                        else jaroWinklerSimilarity name1 name2);
        tsr \<leftarrow> tokenSetRatio name1 name2;
        Some (similarity, tsr)
      } else Some (0, 0))"

text \<open>The chain of \<open>if\<close>s that determines match type and confidence.\<close>

definition decideMatch ::
  "DedupConfig \<Rightarrow> real \<Rightarrow> string \<Rightarrow> string \<Rightarrow> real \<Rightarrow> bool \<Rightarrow> bool \<Rightarrow> MatchType \<times> real" where
  "decideMatch config gpsDist name1 name2 combinedNameScore blocked generic =
     (let gpsMatch = gpsDist \<le> gpsThreshold config;
          nameMatch = combinedNameScore \<ge> nameThreshold config
      in if blocked then (NoMatch, 0)
         else if gpsMatch \<and> nameMatch then (Both, 95)
         else if gpsMatch \<and> generic \<and> gpsDist \<le> genericGpsThreshold config then (Gps, 70)
         else if gpsMatch \<and> name1 = [] \<and> name2 = [] then (Gps, 60)
         else if nameMatch \<and> \<not> requireGps config then
           (if combinedNameScore \<ge> 0.95 then (Name, 80)
            else if combinedNameScore \<ge> 0.90 then (Name, 65)
            else (NoMatch, 0))
         else if gpsMatch \<and> combinedNameScore \<ge> 0.70 then (Both, 75)
         else (NoMatch, 0))"

definition checkDuplicate :: "ParsedMapPoint \<Rightarrow> ParsedMapPoint \<Rightarrow> DedupConfig \<Rightarrow> MatchResult option" where
  "checkDuplicate point1 point2 config =
     (let gpsDist = haversineDistance (lat point1) (lng point1) (lat point2) (lng point2);
          name1 = nameOrEmpty point1;
          name2 = nameOrEmpty point2
      in do {
        (similarity, tsr) \<leftarrow> nameScores name1 name2 config;
        (let combinedNameScore = max similarity tsr;
             blocking = checkBlockingConflict name1 name2;
             generic = (isGenericName name1 \<or> isGenericName name2);
             verdict = decideMatch config gpsDist name1 name2 combinedNameScore (hasConflict blocking) generic
         in Some \<lparr>index1 = 0, index2 = 0, gpsDistance = gpsDist, nameSimilarity = similarity,
                  tokenSetRatio_of = tsr, blockingConflict = hasConflict blocking,
                  isGeneric = generic, matchType = fst verdict, confidence = snd verdict\<rparr>)
      })"

section \<open>Union-find (dedup.ts)\<close>

text \<open>The class \<open>UnionFind\<close>. The field \<open>size\<close> is called \<open>sizes\<close> here. Every method is
  called with indices below the number of points only, where the arrays are read in
  range.\<close>

record UnionFind =
  parent :: "nat list"
  rank :: "nat list"
  sizes :: "nat list"

definition UnionFind_new :: "nat \<Rightarrow> UnionFind" where
  "UnionFind_new n = \<lparr>parent = [0..<n], rank = replicate n 0, sizes = replicate n 1\<rparr>"

text \<open>\<open>find\<close> with path compression, on the array \<open>parent\<close>. The recursion need not end
  on an array with a cycle; not returning is \<open>None\<close>.\<close>

partial_function (option) findParent :: "nat list \<Rightarrow> nat \<Rightarrow> (nat list \<times> nat) option" where
  "findParent p x =
     (if p ! x \<noteq> x
      then Option.bind (findParent p (p ! x)) (\<lambda>(p', r). Some (p'[x := r], p'[x := r] ! x))
      else Some (p, p ! x))"

definition UnionFind_find :: "UnionFind \<Rightarrow> nat \<Rightarrow> (UnionFind \<times> nat) option" where
  "UnionFind_find uf x = map_option (\<lambda>(p, r). (uf\<lparr>parent := p\<rparr>, r)) (findParent (parent uf) x)"

definition UnionFind_union :: "UnionFind \<Rightarrow> nat \<Rightarrow> nat \<Rightarrow> (UnionFind \<times> bool) option" where
  "UnionFind_union uf x y = do {
     (uf1, rootX) \<leftarrow> UnionFind_find uf x;
     (uf2, rootY) \<leftarrow> UnionFind_find uf1 y;
     (if rootX = rootY then Some (uf2, False)
      else if rank uf2 ! rootX < rank uf2 ! rootY then
        Some (uf2\<lparr>parent := (parent uf2)[rootX := rootY],
                  sizes := (sizes uf2)[rootY := sizes uf2 ! rootY + sizes uf2 ! rootX]\<rparr>, True)
      else if rank uf2 ! rootX > rank uf2 ! rootY then
        Some (uf2\<lparr>parent := (parent uf2)[rootY := rootX],
                  sizes := (sizes uf2)[rootX := sizes uf2 ! rootX + sizes uf2 ! rootY]\<rparr>, True)
      else
        Some (uf2\<lparr>parent := (parent uf2)[rootY := rootX],
                  sizes := (sizes uf2)[rootX := sizes uf2 ! rootX + sizes uf2 ! rootY],
                  rank := (rank uf2)[rootX := rank uf2 ! rootX + 1]\<rparr>, True))
   }"

text \<open>\<open>getClusters\<close> fills a \<open>Map\<close>, which keeps its keys in the order of their first
  insertion: an association list.\<close>

definition pushTo :: "nat \<Rightarrow> nat \<Rightarrow> (nat \<times> nat list) list \<Rightarrow> (nat \<times> nat list) list" where
  "pushTo rt i clusters =
     map (\<lambda>(k, v). if k = rt then (k, v @ [i]) else (k, v))
       (if rt \<in> fst ` set clusters then clusters else clusters @ [(rt, [])])"

fun getClustersLoop ::
  "nat list \<Rightarrow> UnionFind \<Rightarrow> (nat \<times> nat list) list \<Rightarrow> (UnionFind \<times> (nat \<times> nat list) list) option" where
  "getClustersLoop [] uf clusters = Some (uf, clusters)"
| "getClustersLoop (i # is) uf clusters =
     Option.bind (UnionFind_find uf i) (\<lambda>(uf', rt). getClustersLoop is uf' (pushTo rt i clusters))"

definition UnionFind_getClusters :: "UnionFind \<Rightarrow> (UnionFind \<times> (nat \<times> nat list) list) option" where
  "UnionFind_getClusters uf = getClustersLoop [0..<length (parent uf)] uf []"

section \<open>Clustering (dedup.ts)\<close>

record Centroid =
  centroidLat :: real
  centroidLng :: real

record DuplicateGroup =
  representative :: nat
  members :: "nat list"
  mergedName :: "string option"
  akaNames :: "string list"
  centroid :: Centroid
  groupConfidence :: real

text \<open>The pairs \<open>(xs[i], xs[j])\<close> with \<open>i < j\<close>, in the order of the two nested loops.\<close>

fun pairsOf :: "'a list \<Rightarrow> ('a \<times> 'a) list" where
  "pairsOf [] = []"
| "pairsOf (x # xs) = map (Pair x) xs @ pairsOf xs"

definition pointDistance :: "ParsedMapPoint list \<Rightarrow> nat \<Rightarrow> nat \<Rightarrow> real" where
  "pointDistance points a b =
     haversineDistance (lat (points ! a)) (lng (points ! a)) (lat (points ! b)) (lng (points ! b))"

definition calculateClusterDiameter :: "ParsedMapPoint list \<Rightarrow> nat list \<Rightarrow> real" where
  "calculateClusterDiameter points indices =
     (if length indices \<le> 1 then 0
      else fold (\<lambda>(a, b) maxDistance.
                   let dist = pointDistance points a b
                   in if dist > maxDistance then dist else maxDistance)
             (pairsOf indices) 0)"

text \<open>The first pair of loops: every pair \<open>i < j\<close> is evaluated, and the result is kept
  when it is a match with enough confidence.\<close>

fun collectMatches ::
  "ParsedMapPoint list \<Rightarrow> DedupConfig \<Rightarrow> (nat \<times> nat) list \<Rightarrow> MatchResult list option" where
  "collectMatches points config [] = Some []"
| "collectMatches points config ((i, j) # ps) = do {
     result \<leftarrow> checkDuplicate (points ! i) (points ! j) config;
     rest \<leftarrow> collectMatches points config ps;
     (let result' = result\<lparr>index1 := i, index2 := j\<rparr>
      in if matchType result' \<noteq> NoMatch \<and> confidence result' \<ge> minConfidence config
         then Some (result' # rest)
         else Some rest)
   }"

definition potentialMatches :: "ParsedMapPoint list \<Rightarrow> DedupConfig \<Rightarrow> MatchResult list option" where
  "potentialMatches points config = collectMatches points config (pairsOf [0..<length points])"

text \<open>\<open>potentialMatches.sort((a, b) => b.confidence - a.confidence)\<close>\<close>

definition sortByConfidence :: "MatchResult list \<Rightarrow> MatchResult list" where
  "sortByConfidence ms = sortBy (\<lambda>a b. confidence b - confidence a) ms"

text \<open>The state of the merge loop. \<open>clusterMembers\<close> is a \<open>Map\<close> from a rt to a \<open>Set\<close>
  of indices, a set being the list of its elements in insertion order. Reading a
  property of \<open>undefined\<close> throws a \<open>TypeError\<close>.\<close>

datatype error = TypeError

record MergeState =
  uf :: UnionFind
  clusterMembers :: "nat \<rightharpoonup> nat list"
  matches :: "MatchResult list"

definition mergeStep ::
  "ParsedMapPoint list \<Rightarrow> DedupConfig \<Rightarrow> MatchResult \<Rightarrow> MergeState \<Rightarrow> (error + MergeState) option" where
  "mergeStep points config match st = do {
     (uf1, root1) \<leftarrow> UnionFind_find (uf st) (index1 match);
     (uf2, root2) \<leftarrow> UnionFind_find uf1 (index2 match);
     (if root1 = root2 then Some (Inr (st\<lparr>uf := uf2\<rparr>))
      else
        (case clusterMembers st root1 of
           None \<Rightarrow> Some (Inl TypeError)
         | Some cluster1 \<Rightarrow>
        (case clusterMembers st root2 of
           None \<Rightarrow> Some (Inl TypeError)
         | Some cluster2 \<Rightarrow>
             if real (length cluster1 + length cluster2) > maxClusterSize config
             then Some (Inr (st\<lparr>uf := uf2\<rparr>))
             else if calculateClusterDiameter points (cluster1 @ cluster2) > maxClusterDiameter config
             then Some (Inr (st\<lparr>uf := uf2\<rparr>))
             else do {
               (uf3, merged) \<leftarrow> UnionFind_union uf2 (index1 match) (index2 match);
               (uf4, newRoot) \<leftarrow> UnionFind_find uf3 (index1 match);
               (let mergedCluster = newSet (cluster1 @ cluster2);
                    cm1 = (clusterMembers st)(newRoot \<mapsto> mergedCluster);
                    cm2 = (if newRoot \<noteq> root1 then cm1(root1 := None) else cm1);
                    cm3 = (if newRoot \<noteq> root2 then cm2(root2 := None) else cm2)
                in Some (Inr \<lparr>uf = uf4, clusterMembers = cm3, matches = matches st @ [match]\<rparr>))
             })))
   }"

fun mergeLoop ::
  "ParsedMapPoint list \<Rightarrow> DedupConfig \<Rightarrow> MatchResult list \<Rightarrow> MergeState \<Rightarrow> (error + MergeState) option" where
  "mergeLoop points config [] st = Some (Inr st)"
| "mergeLoop points config (match # rest) st =
     (case mergeStep points config match st of
        None \<Rightarrow> None
      | Some (Inl e) \<Rightarrow> Some (Inl e)
      | Some (Inr st') \<Rightarrow> mergeLoop points config rest st')"

definition initialState :: "nat \<Rightarrow> MergeState" where
  "initialState n =
     \<lparr>uf = UnionFind_new n,
      clusterMembers = (\<lambda>i. if i < n then Some [i] else None),
      matches = []\<rparr>"

text \<open>The names of a group: \<open>uniqueNames\<close> is a \<open>Map\<close> from the lower-cased, trimmed name
  to the longest spelling seen; a key that is set again keeps its place.\<close>

definition addUniqueName :: "string \<Rightarrow> (string \<times> string) list \<Rightarrow> (string \<times> string) list" where
  "addUniqueName nm uniqueNames =
     (let normalized = trim (toLowerCase nm) in
      case map_of uniqueNames normalized of
        None \<Rightarrow> uniqueNames @ [(normalized, nm)]
      | Some old \<Rightarrow>
          if length nm > length old
          then map (\<lambda>(k, v). if k = normalized then (k, nm) else (k, v)) uniqueNames
          else uniqueNames)"

text \<open>\<open>Math.round\<close>\<close>

definition mathRound :: "real \<Rightarrow> real" where
  "mathRound x = of_int \<lfloor>x + 1 / 2\<rfloor>"

definition buildGroup ::
  "ParsedMapPoint list \<Rightarrow> MatchResult list \<Rightarrow> nat \<times> nat list \<Rightarrow> DuplicateGroup" where
  "buildGroup points ms cluster =
     (case cluster of (rt, mems) \<Rightarrow>
        (let names = List.map_filter
                       (\<lambda>idx. case name (points ! idx) of
                                 None \<Rightarrow> None
                               | Some nm \<Rightarrow> if nm \<noteq> [] then Some nm else None) mems;
             sumLat = fold (\<lambda>idx s. s + lat (points ! idx)) mems 0;
             sumLng = fold (\<lambda>idx s. s + lng (points ! idx)) mems 0;
             uniqueNames = fold addUniqueName names [];
             sortedNames = sortBy (\<lambda>a b. real (length b) - real (length a)) (map snd uniqueNames);
             primaryName = (case sortedNames of [] \<Rightarrow> None | nm # _ \<Rightarrow> Some nm);
             groupMatches = filter (\<lambda>m. index1 m \<in> set mems \<and> index2 m \<in> set mems) ms;
             avgConfidence =
               (if length groupMatches > 0
                then fold (\<lambda>m s. s + confidence m) groupMatches 0 / real (length groupMatches)
                else 100)
         in \<lparr>representative = rt,
             members = mems,
             mergedName = primaryName,
             akaNames = drop 1 sortedNames,
             centroid = \<lparr>centroidLat = sumLat / real (length mems),
                         centroidLng = sumLng / real (length mems)\<rparr>,
             groupConfidence = mathRound avgConfidence\<rparr>))"

definition findDuplicateGroups ::
  "ParsedMapPoint list \<Rightarrow> DedupConfig \<Rightarrow> (error + DuplicateGroup list) option" where
  "findDuplicateGroups points config =
     (let n = length points in
      if n = 0 then Some (Inr [])
      else if n = 1 then
        Some (Inr [\<lparr>representative = 0,
                    members = [0],
                    mergedName = name (points ! 0),
                    akaNames = [],
                    centroid = \<lparr>centroidLat = lat (points ! 0), centroidLng = lng (points ! 0)\<rparr>,
                    groupConfidence = 100\<rparr>])
      else
        (case potentialMatches points config of
           None \<Rightarrow> None
         | Some candidates \<Rightarrow>
        (case mergeLoop points config (sortByConfidence candidates) (initialState n) of
           None \<Rightarrow> None
         | Some (Inl e) \<Rightarrow> Some (Inl e)
         | Some (Inr st) \<Rightarrow>
        (case UnionFind_getClusters (uf st) of
           None \<Rightarrow> None
         | Some (uf', clusters) \<Rightarrow>
             Some (Inr (map (buildGroup points (matches st)) clusters))))))"

section \<open>Auxiliary notions for the proofs\<close>

text \<open>The flags of the matching loop: as many characters of \<open>s2\<close> are flagged as of
  \<open>s1\<close>, at least.\<close>

definition flagsOk :: "string \<Rightarrow> string \<Rightarrow> bool list \<times> bool list \<times> nat \<Rightarrow> bool" where
  "flagsOk s1 s2 st =
     (case st of (f1, f2, m) \<Rightarrow>
        length f1 = length s1 \<and> length f2 = length s2 \<and>
        length (filter id f1) \<le> length (filter id f2))"

text \<open>A literal is a prefix of a string, up to case; and it occurs nowhere in a string.\<close>

fun isPrefixCI :: "string \<Rightarrow> string \<Rightarrow> bool" where
  "isPrefixCI [] s = True"
| "isPrefixCI (a # p) [] = False"
| "isPrefixCI (a # p) (b # s) = (if toLowerChar a = toLowerChar b then isPrefixCI p s else False)"

fun noOccurrence :: "string \<Rightarrow> string \<Rightarrow> bool" where
  "noOccurrence p [] = True"
| "noOccurrence p (c # cs) = (if isPrefixCI p (c # cs) then False else noOccurrence p cs)"

text \<open>The blocking rule in the words of the specification: both names carry a value of
  the same category (directional, temporal, numbered, identifier), and the two values
  differ.\<close>

definition blockingWordConflict :: "string \<Rightarrow> string \<Rightarrow> bool" where
  "blockingWordConflict name1 name2 =
     (let b1 = extractBlockingWords name1; b2 = extractBlockingWords name2 in
      (\<exists>a \<in> set (directions b1). \<exists>b \<in> set (directions b2). a \<noteq> b) \<or>
      (\<exists>a \<in> set (temporal b1). \<exists>b \<in> set (temporal b2). a \<noteq> b) \<or>
      (\<exists>a \<in> set (numbered b1). \<exists>b \<in> set (numbered b2). a \<noteq> b) \<or>
      (\<exists>a \<in> set (identifiers b1). \<exists>b \<in> set (identifiers b2). a \<noteq> b))"

text \<open>The local variable \<open>combinedNameScore\<close> of \<open>checkDuplicate\<close>, as a function of the
  two names.\<close>

definition combinedNameScore :: "string \<Rightarrow> string \<Rightarrow> DedupConfig \<Rightarrow> real option" where
  "combinedNameScore name1 name2 config =
     map_option (\<lambda>(similarity, tsr). max similarity tsr) (nameScores name1 name2 config)"

text \<open>Example records: a point at latitude 43 and longitude -77 with the given name.\<close>

definition namedPoint :: "string option \<Rightarrow> ParsedMapPoint" where
  "namedPoint nm =
     \<lparr>name = nm, description = None, lat = 43, lng = - 77, state = None, category = None,
      rawMetadata = None\<rparr>"

text \<open>Union-find: \<open>rootOf p x r\<close> says that following \<open>parent\<close> from \<open>x\<close> ends in the root
  \<open>r\<close>; in a forest every index has a root, its representative.\<close>

inductive rootOf :: "nat list \<Rightarrow> nat \<Rightarrow> nat \<Rightarrow> bool" for p :: "nat list" where
  rootOf_here: "x < length p \<Longrightarrow> p ! x = x \<Longrightarrow> rootOf p x x"
| rootOf_up: "x < length p \<Longrightarrow> p ! x \<noteq> x \<Longrightarrow> rootOf p (p ! x) r \<Longrightarrow> rootOf p x r"

definition repr :: "nat list \<Rightarrow> nat \<Rightarrow> nat" where
  "repr p x = (THE r. rootOf p x r)"

definition forest :: "nat list \<Rightarrow> bool" where
  "forest p = (\<forall>x < length p. \<exists>r. rootOf p x r)"

definition ufOk :: "nat \<Rightarrow> UnionFind \<Rightarrow> bool" where
  "ufOk n u = (length (parent u) = n \<and> length (rank u) = n \<and> length (sizes u) = n \<and> forest (parent u))"

text \<open>The invariant of the merge loop: the union-find structure is a forest over the \<open>n\<close>
  points, and \<open>clusterMembers\<close> holds, for every root, the members of its class.\<close>

definition mergeInv :: "nat \<Rightarrow> MergeState \<Rightarrow> bool" where
  "mergeInv n st =
     (ufOk n (uf st) \<and>
      (\<forall>r < n. repr (parent (uf st)) r = r \<longrightarrow>
         (\<exists>c. clusterMembers st r = Some c \<and> distinct c \<and>
              set c = {y. y < n \<and> repr (parent (uf st)) y = r})))"

text \<open>The two safeguards, for the cluster of every root.\<close>

definition safeInv :: "ParsedMapPoint list \<Rightarrow> DedupConfig \<Rightarrow> nat \<Rightarrow> MergeState \<Rightarrow> bool" where
  "safeInv points config n st =
     (\<forall>r < n. \<forall>c. repr (parent (uf st)) r = r \<longrightarrow> clusterMembers st r = Some c \<longrightarrow>
        real (length c) \<le> maxClusterSize config \<and>
        (\<forall>a \<in> set c. \<forall>b \<in> set c. pointDistance points a b \<le> maxClusterDiameter config))"

text \<open>The body of the two loops of \<open>calculateClusterDiameter\<close>.\<close>

definition maxStep :: "ParsedMapPoint list \<Rightarrow> nat \<times> nat \<Rightarrow> real \<Rightarrow> real" where
  "maxStep points = (\<lambda>(a, b) maxDistance.
      let dist = pointDistance points a b in if dist > maxDistance then dist else maxDistance)"

text \<open>The pairs of indices that the first loops of \<open>findDuplicateGroups\<close> retain.\<close>

definition keptPair :: "ParsedMapPoint list \<Rightarrow> DedupConfig \<Rightarrow> nat \<times> nat \<Rightarrow> bool" where
  "keptPair points config = (\<lambda>(i, j).
     \<exists>r. checkDuplicate (points ! i) (points ! j) config = Some r \<and>
         matchType r \<noteq> NoMatch \<and> confidence r \<ge> minConfidence config)"

text \<open>The clusters collected by \<open>getClusters\<close>: no root twice, every member under its root.\<close>

definition keysOk :: "(nat \<Rightarrow> nat) \<Rightarrow> (nat \<times> nat list) list \<Rightarrow> bool" where
  "keysOk f cl = (distinct (map fst cl) \<and> (\<forall>k v j. (k, v) \<in> set cl \<longrightarrow> j \<in> set v \<longrightarrow> f j = k))"

section \<open>The similarity functions return\<close>

lemma count_flags_zip:
  "length fl = length s \<Longrightarrow> length (filter fst (zip fl s)) = length (filter id fl)"
proof (induction fl arbitrary: s)
  case Nil
  then show ?case by simp
next
  case (Cons f fl)
  then obtain c s' where "s = c # s'" by (cases s) auto
  with Cons show ?case by simp
qed

lemma count_update_le: "length (filter id (xs[i := True])) \<le> Suc (length (filter id xs))"
proof (induction xs arbitrary: i)
  case Nil
  show ?case by simp
next
  case (Cons x xs)
  show ?case
  proof (cases i)
    case 0
    then show ?thesis by simp
  next
    case (Suc k)
    with Cons[of k] show ?thesis by simp
  qed
qed

lemma count_update_new:
  "j < length xs \<Longrightarrow> \<not> xs ! j \<Longrightarrow> length (filter id (xs[j := True])) = Suc (length (filter id xs))"
proof (induction xs arbitrary: j)
  case Nil
  then show ?case by simp
next
  case (Cons x xs)
  show ?case
  proof (cases j)
    case 0
    with Cons.prems show ?thesis by simp
  next
    case (Suc k)
    with Cons.prems Cons.IH[of k] show ?thesis by simp
  qed
qed

lemma findMatch_Some:
  "findMatch s2 fl c start e = Some j \<Longrightarrow> start \<le> j \<and> j < e \<and> \<not> fl ! j \<and> s2 ! j = c"
  unfolding findMatch_def by (auto simp: find_Some_iff)

lemma matchStep_flagsOk:
  assumes "flagsOk s1 s2 st"
  shows "flagsOk s1 s2 (matchStep s1 s2 w i st)"
proof -
  obtain f1 f2 m where st: "st = (f1, f2, m)" by (cases st) auto
  show ?thesis
  proof (cases "findMatch s2 f2 (s1 ! i) (i - w) (min (i + w + 1) (length s2))")
    case None
    with assms st show ?thesis by (simp add: matchStep_def flagsOk_def)
  next
    case (Some j)
    from findMatch_Some[OF Some] assms st have j: "j < length f2" "\<not> f2 ! j"
      by (auto simp: flagsOk_def)
    have "length (filter id (f1[i := True])) \<le> Suc (length (filter id f1))"
      by (rule count_update_le)
    moreover have "length (filter id (f2[j := True])) = Suc (length (filter id f2))"
      using j by (rule count_update_new)
    ultimately show ?thesis using assms st Some
      by (simp add: matchStep_def flagsOk_def)
  qed
qed

lemma fold_matchStep_flagsOk:
  "flagsOk s1 s2 st \<Longrightarrow> flagsOk s1 s2 (fold (matchStep s1 s2 w) is st)"
  by (induction "is" arbitrary: st) (simp_all add: matchStep_flagsOk)

lemma matchLoop_flagsOk: "flagsOk s1 s2 (matchLoop s1 s2 w)"
  unfolding matchLoop_def
  by (rule fold_matchStep_flagsOk) (simp add: flagsOk_def)

lemma transpositionLoop_total:
  "length (filter fst r1) \<le> length (filter fst r2) \<Longrightarrow> \<exists>t. transpositionLoop r1 r2 = Some t"
proof (induction r1 arbitrary: r2)
  case Nil
  show ?case by simp
next
  case (Cons a r1)
  obtain f c where a: "a = (f, c)" by (cases a) auto
  show ?case
  proof (cases f)
    case False
    with Cons a show ?thesis by simp
  next
    case True
    let ?d = "dropWhile (\<lambda>(g, d). \<not> g) r2"
    have flt: "filter fst r2 = filter fst ?d"
      by (induction r2) auto
    have "?d \<noteq> []"
    proof
      assume "?d = []"
      with flt have "filter fst r2 = []" by simp
      with Cons.prems a True show False by simp
    qed
    then obtain g d r2' where d: "?d = (g, d) # r2'" by (cases ?d) auto
    have "g" using hd_dropWhile[of "\<lambda>(g, d). \<not> g" r2] d by auto
    with flt d Cons.prems a True have "length (filter fst r1) \<le> length (filter fst r2')" by simp
    from Cons.IH[OF this] obtain t where "transpositionLoop r1 r2' = Some t" by blast
    with a True d show ?thesis by simp
  qed
qed

lemma jaroSimilarity_not_None: "jaroSimilarity s1 s2 \<noteq> None"
proof -
  let ?w = "max (length s1) (length s2) div 2 - 1"
  obtain f1 f2 m where ml: "matchLoop s1 s2 ?w = (f1, f2, m)" by (cases "matchLoop s1 s2 ?w") auto
  from matchLoop_flagsOk[of s1 s2 ?w] ml
  have "length f1 = length s1" "length f2 = length s2" "length (filter id f1) \<le> length (filter id f2)"
    by (auto simp: flagsOk_def)
  then have "length (filter fst (zip f1 s1)) \<le> length (filter fst (zip f2 s2))"
    by (simp add: count_flags_zip)
  from transpositionLoop_total[OF this] obtain t where "transpositionLoop (zip f1 s1) (zip f2 s2) = Some t"
    by blast
  with ml show ?thesis by (simp add: jaroSimilarity_def Let_def del: not_None_eq)
qed

lemma jaroSimilarity_total: "\<exists>r. jaroSimilarity s1 s2 = Some r"
  using jaroSimilarity_not_None[of s1 s2] by blast

lemma jaroWinklerSimilarityWith_total: "\<exists>r. jaroWinklerSimilarityWith s1 s2 p = Some r"
  using jaroSimilarity_total[of "trim (toLowerCase s1)" "trim (toLowerCase s2)"]
  by (auto simp: jaroWinklerSimilarityWith_def Let_def)

lemma jaroWinklerSimilarity_total: "\<exists>r. jaroWinklerSimilarity s1 s2 = Some r"
  unfolding jaroWinklerSimilarity_def by (rule jaroWinklerSimilarityWith_total)

lemma tokenSortRatio_total: "\<exists>r. tokenSortRatio s1 s2 = Some r"
  using jaroWinklerSimilarity_total by (auto simp: tokenSortRatio_def Let_def)

lemma tokenSetRatio_total: "\<exists>r. tokenSetRatio s1 s2 = Some r"
proof -
  obtain a where a: "\<And>x y. jaroWinklerSimilarity x y = Some (a x y)"
    using jaroWinklerSimilarity_total by metis
  obtain b where b: "tokenSortRatio s1 s2 = Some b" using tokenSortRatio_total by blast
  show ?thesis by (simp add: tokenSetRatio_def Let_def a b)
qed

lemma nameScores_total: "\<exists>r. nameScores n1 n2 cfg = Some r"
proof -
  obtain a where a: "\<And>x y. jaroWinklerSimilarity x y = Some (a x y)"
    using jaroWinklerSimilarity_total by metis
  obtain b where b: "tokenSetRatio n1 n2 = Some b" using tokenSetRatio_total by blast
  show ?thesis by (simp add: nameScores_def normalizedSimilarity_def a b)
qed

lemma checkDuplicate_total: "\<exists>r. checkDuplicate p1 p2 cfg = Some r"
proof -
  obtain s where "nameScores (nameOrEmpty p1) (nameOrEmpty p2) cfg = Some s"
    using nameScores_total by blast
  then show ?thesis by (cases s) (simp add: checkDuplicate_def Let_def)
qed

section \<open>Evaluating the character classes\<close>

lemma isSpace_table:
  "isSpace (CHR 0x09) = True" "isSpace (CHR 0x0A) = True" "isSpace (CHR 0x0B) = True"
  "isSpace (CHR 0x0C) = True" "isSpace (CHR 0x0D) = True" "isSpace (CHR 0x20) = True"
  "isSpace (CHR 0x21) = False" "isSpace (CHR 0x22) = False" "isSpace (CHR 0x23) = False"
  "isSpace (CHR 0x24) = False" "isSpace (CHR 0x25) = False" "isSpace (CHR 0x26) = False"
  "isSpace (CHR 0x27) = False" "isSpace (CHR 0x28) = False" "isSpace (CHR 0x29) = False"
  "isSpace (CHR 0x2A) = False" "isSpace (CHR 0x2B) = False" "isSpace (CHR 0x2C) = False"
  "isSpace (CHR 0x2D) = False" "isSpace (CHR 0x2E) = False" "isSpace (CHR 0x2F) = False"
  "isSpace (CHR 0x30) = False" "isSpace (CHR 0x31) = False" "isSpace (CHR 0x32) = False"
  "isSpace (CHR 0x33) = False" "isSpace (CHR 0x34) = False" "isSpace (CHR 0x35) = False"
  "isSpace (CHR 0x36) = False" "isSpace (CHR 0x37) = False" "isSpace (CHR 0x38) = False"
  "isSpace (CHR 0x39) = False" "isSpace (CHR 0x3A) = False" "isSpace (CHR 0x3B) = False"
  "isSpace (CHR 0x3C) = False" "isSpace (CHR 0x3D) = False" "isSpace (CHR 0x3E) = False"
  "isSpace (CHR 0x3F) = False" "isSpace (CHR 0x40) = False" "isSpace (CHR 0x41) = False"
  "isSpace (CHR 0x42) = False" "isSpace (CHR 0x43) = False" "isSpace (CHR 0x44) = False"
  "isSpace (CHR 0x45) = False" "isSpace (CHR 0x46) = False" "isSpace (CHR 0x47) = False"
  "isSpace (CHR 0x48) = False" "isSpace (CHR 0x49) = False" "isSpace (CHR 0x4A) = False"
  "isSpace (CHR 0x4B) = False" "isSpace (CHR 0x4C) = False" "isSpace (CHR 0x4D) = False"
  "isSpace (CHR 0x4E) = False" "isSpace (CHR 0x4F) = False" "isSpace (CHR 0x50) = False"
  "isSpace (CHR 0x51) = False" "isSpace (CHR 0x52) = False" "isSpace (CHR 0x53) = False"
  "isSpace (CHR 0x54) = False" "isSpace (CHR 0x55) = False" "isSpace (CHR 0x56) = False"
  "isSpace (CHR 0x57) = False" "isSpace (CHR 0x58) = False" "isSpace (CHR 0x59) = False"
  "isSpace (CHR 0x5A) = False" "isSpace (CHR 0x5B) = False" "isSpace (CHR 0x5C) = False"
  "isSpace (CHR 0x5D) = False" "isSpace (CHR 0x5E) = False" "isSpace (CHR 0x5F) = False"
  "isSpace (CHR 0x60) = False" "isSpace (CHR 0x61) = False" "isSpace (CHR 0x62) = False"
  "isSpace (CHR 0x63) = False" "isSpace (CHR 0x64) = False" "isSpace (CHR 0x65) = False"
  "isSpace (CHR 0x66) = False" "isSpace (CHR 0x67) = False" "isSpace (CHR 0x68) = False"
  "isSpace (CHR 0x69) = False" "isSpace (CHR 0x6A) = False" "isSpace (CHR 0x6B) = False"
  "isSpace (CHR 0x6C) = False" "isSpace (CHR 0x6D) = False" "isSpace (CHR 0x6E) = False"
  "isSpace (CHR 0x6F) = False" "isSpace (CHR 0x70) = False" "isSpace (CHR 0x71) = False"
  "isSpace (CHR 0x72) = False" "isSpace (CHR 0x73) = False" "isSpace (CHR 0x74) = False"
  "isSpace (CHR 0x75) = False" "isSpace (CHR 0x76) = False" "isSpace (CHR 0x77) = False"
  "isSpace (CHR 0x78) = False" "isSpace (CHR 0x79) = False" "isSpace (CHR 0x7A) = False"
  "isSpace (CHR 0x7B) = False" "isSpace (CHR 0x7C) = False" "isSpace (CHR 0x7D) = False"
  "isSpace (CHR 0x7E) = False"
  by (simp_all add: isSpace_def)

lemma isDigit_table:
  "isDigit (CHR 0x09) = False" "isDigit (CHR 0x0A) = False" "isDigit (CHR 0x0B) = False"
  "isDigit (CHR 0x0C) = False" "isDigit (CHR 0x0D) = False" "isDigit (CHR 0x20) = False"
  "isDigit (CHR 0x21) = False" "isDigit (CHR 0x22) = False" "isDigit (CHR 0x23) = False"
  "isDigit (CHR 0x24) = False" "isDigit (CHR 0x25) = False" "isDigit (CHR 0x26) = False"
  "isDigit (CHR 0x27) = False" "isDigit (CHR 0x28) = False" "isDigit (CHR 0x29) = False"
  "isDigit (CHR 0x2A) = False" "isDigit (CHR 0x2B) = False" "isDigit (CHR 0x2C) = False"
  "isDigit (CHR 0x2D) = False" "isDigit (CHR 0x2E) = False" "isDigit (CHR 0x2F) = False"
  "isDigit (CHR 0x30) = True" "isDigit (CHR 0x31) = True" "isDigit (CHR 0x32) = True"
  "isDigit (CHR 0x33) = True" "isDigit (CHR 0x34) = True" "isDigit (CHR 0x35) = True"
  "isDigit (CHR 0x36) = True" "isDigit (CHR 0x37) = True" "isDigit (CHR 0x38) = True"
  "isDigit (CHR 0x39) = True" "isDigit (CHR 0x3A) = False" "isDigit (CHR 0x3B) = False"
  "isDigit (CHR 0x3C) = False" "isDigit (CHR 0x3D) = False" "isDigit (CHR 0x3E) = False"
  "isDigit (CHR 0x3F) = False" "isDigit (CHR 0x40) = False" "isDigit (CHR 0x41) = False"
  "isDigit (CHR 0x42) = False" "isDigit (CHR 0x43) = False" "isDigit (CHR 0x44) = False"
  "isDigit (CHR 0x45) = False" "isDigit (CHR 0x46) = False" "isDigit (CHR 0x47) = False"
  "isDigit (CHR 0x48) = False" "isDigit (CHR 0x49) = False" "isDigit (CHR 0x4A) = False"
  "isDigit (CHR 0x4B) = False" "isDigit (CHR 0x4C) = False" "isDigit (CHR 0x4D) = False"
  "isDigit (CHR 0x4E) = False" "isDigit (CHR 0x4F) = False" "isDigit (CHR 0x50) = False"
  "isDigit (CHR 0x51) = False" "isDigit (CHR 0x52) = False" "isDigit (CHR 0x53) = False"
  "isDigit (CHR 0x54) = False" "isDigit (CHR 0x55) = False" "isDigit (CHR 0x56) = False"
  "isDigit (CHR 0x57) = False" "isDigit (CHR 0x58) = False" "isDigit (CHR 0x59) = False"
  "isDigit (CHR 0x5A) = False" "isDigit (CHR 0x5B) = False" "isDigit (CHR 0x5C) = False"
  "isDigit (CHR 0x5D) = False" "isDigit (CHR 0x5E) = False" "isDigit (CHR 0x5F) = False"
  "isDigit (CHR 0x60) = False" "isDigit (CHR 0x61) = False" "isDigit (CHR 0x62) = False"
  "isDigit (CHR 0x63) = False" "isDigit (CHR 0x64) = False" "isDigit (CHR 0x65) = False"
  "isDigit (CHR 0x66) = False" "isDigit (CHR 0x67) = False" "isDigit (CHR 0x68) = False"
  "isDigit (CHR 0x69) = False" "isDigit (CHR 0x6A) = False" "isDigit (CHR 0x6B) = False"
  "isDigit (CHR 0x6C) = False" "isDigit (CHR 0x6D) = False" "isDigit (CHR 0x6E) = False"
  "isDigit (CHR 0x6F) = False" "isDigit (CHR 0x70) = False" "isDigit (CHR 0x71) = False"
  "isDigit (CHR 0x72) = False" "isDigit (CHR 0x73) = False" "isDigit (CHR 0x74) = False"
  "isDigit (CHR 0x75) = False" "isDigit (CHR 0x76) = False" "isDigit (CHR 0x77) = False"
  "isDigit (CHR 0x78) = False" "isDigit (CHR 0x79) = False" "isDigit (CHR 0x7A) = False"
  "isDigit (CHR 0x7B) = False" "isDigit (CHR 0x7C) = False" "isDigit (CHR 0x7D) = False"
  "isDigit (CHR 0x7E) = False"
  by (simp_all add: isDigit_def)

lemma isWordChar_table:
  "isWordChar (CHR 0x09) = False" "isWordChar (CHR 0x0A) = False" "isWordChar (CHR 0x0B) = False"
  "isWordChar (CHR 0x0C) = False" "isWordChar (CHR 0x0D) = False" "isWordChar (CHR 0x20) = False"
  "isWordChar (CHR 0x21) = False" "isWordChar (CHR 0x22) = False" "isWordChar (CHR 0x23) = False"
  "isWordChar (CHR 0x24) = False" "isWordChar (CHR 0x25) = False" "isWordChar (CHR 0x26) = False"
  "isWordChar (CHR 0x27) = False" "isWordChar (CHR 0x28) = False" "isWordChar (CHR 0x29) = False"
  "isWordChar (CHR 0x2A) = False" "isWordChar (CHR 0x2B) = False" "isWordChar (CHR 0x2C) = False"
  "isWordChar (CHR 0x2D) = False" "isWordChar (CHR 0x2E) = False" "isWordChar (CHR 0x2F) = False"
  "isWordChar (CHR 0x30) = True" "isWordChar (CHR 0x31) = True" "isWordChar (CHR 0x32) = True"
  "isWordChar (CHR 0x33) = True" "isWordChar (CHR 0x34) = True" "isWordChar (CHR 0x35) = True"
  "isWordChar (CHR 0x36) = True" "isWordChar (CHR 0x37) = True" "isWordChar (CHR 0x38) = True"
  "isWordChar (CHR 0x39) = True" "isWordChar (CHR 0x3A) = False" "isWordChar (CHR 0x3B) = False"
  "isWordChar (CHR 0x3C) = False" "isWordChar (CHR 0x3D) = False" "isWordChar (CHR 0x3E) = False"
  "isWordChar (CHR 0x3F) = False" "isWordChar (CHR 0x40) = False" "isWordChar (CHR 0x41) = True"
  "isWordChar (CHR 0x42) = True" "isWordChar (CHR 0x43) = True" "isWordChar (CHR 0x44) = True"
  "isWordChar (CHR 0x45) = True" "isWordChar (CHR 0x46) = True" "isWordChar (CHR 0x47) = True"
  "isWordChar (CHR 0x48) = True" "isWordChar (CHR 0x49) = True" "isWordChar (CHR 0x4A) = True"
  "isWordChar (CHR 0x4B) = True" "isWordChar (CHR 0x4C) = True" "isWordChar (CHR 0x4D) = True"
  "isWordChar (CHR 0x4E) = True" "isWordChar (CHR 0x4F) = True" "isWordChar (CHR 0x50) = True"
  "isWordChar (CHR 0x51) = True" "isWordChar (CHR 0x52) = True" "isWordChar (CHR 0x53) = True"
  "isWordChar (CHR 0x54) = True" "isWordChar (CHR 0x55) = True" "isWordChar (CHR 0x56) = True"
  "isWordChar (CHR 0x57) = True" "isWordChar (CHR 0x58) = True" "isWordChar (CHR 0x59) = True"
  "isWordChar (CHR 0x5A) = True" "isWordChar (CHR 0x5B) = False" "isWordChar (CHR 0x5C) = False"
  "isWordChar (CHR 0x5D) = False" "isWordChar (CHR 0x5E) = False" "isWordChar (CHR 0x5F) = True"
  "isWordChar (CHR 0x60) = False" "isWordChar (CHR 0x61) = True" "isWordChar (CHR 0x62) = True"
  "isWordChar (CHR 0x63) = True" "isWordChar (CHR 0x64) = True" "isWordChar (CHR 0x65) = True"
  "isWordChar (CHR 0x66) = True" "isWordChar (CHR 0x67) = True" "isWordChar (CHR 0x68) = True"
  "isWordChar (CHR 0x69) = True" "isWordChar (CHR 0x6A) = True" "isWordChar (CHR 0x6B) = True"
  "isWordChar (CHR 0x6C) = True" "isWordChar (CHR 0x6D) = True" "isWordChar (CHR 0x6E) = True"
  "isWordChar (CHR 0x6F) = True" "isWordChar (CHR 0x70) = True" "isWordChar (CHR 0x71) = True"
  "isWordChar (CHR 0x72) = True" "isWordChar (CHR 0x73) = True" "isWordChar (CHR 0x74) = True"
  "isWordChar (CHR 0x75) = True" "isWordChar (CHR 0x76) = True" "isWordChar (CHR 0x77) = True"
  "isWordChar (CHR 0x78) = True" "isWordChar (CHR 0x79) = True" "isWordChar (CHR 0x7A) = True"
  "isWordChar (CHR 0x7B) = False" "isWordChar (CHR 0x7C) = False" "isWordChar (CHR 0x7D) = False"
  "isWordChar (CHR 0x7E) = False"
  by (simp_all add: isWordChar_def isLetter_def isDigit_def)

lemma isAlnum_table:
  "isAlnum (CHR 0x09) = False" "isAlnum (CHR 0x0A) = False" "isAlnum (CHR 0x0B) = False"
  "isAlnum (CHR 0x0C) = False" "isAlnum (CHR 0x0D) = False" "isAlnum (CHR 0x20) = False"
  "isAlnum (CHR 0x21) = False" "isAlnum (CHR 0x22) = False" "isAlnum (CHR 0x23) = False"
  "isAlnum (CHR 0x24) = False" "isAlnum (CHR 0x25) = False" "isAlnum (CHR 0x26) = False"
  "isAlnum (CHR 0x27) = False" "isAlnum (CHR 0x28) = False" "isAlnum (CHR 0x29) = False"
  "isAlnum (CHR 0x2A) = False" "isAlnum (CHR 0x2B) = False" "isAlnum (CHR 0x2C) = False"
  "isAlnum (CHR 0x2D) = False" "isAlnum (CHR 0x2E) = False" "isAlnum (CHR 0x2F) = False"
  "isAlnum (CHR 0x30) = True" "isAlnum (CHR 0x31) = True" "isAlnum (CHR 0x32) = True"
  "isAlnum (CHR 0x33) = True" "isAlnum (CHR 0x34) = True" "isAlnum (CHR 0x35) = True"
  "isAlnum (CHR 0x36) = True" "isAlnum (CHR 0x37) = True" "isAlnum (CHR 0x38) = True"
  "isAlnum (CHR 0x39) = True" "isAlnum (CHR 0x3A) = False" "isAlnum (CHR 0x3B) = False"
  "isAlnum (CHR 0x3C) = False" "isAlnum (CHR 0x3D) = False" "isAlnum (CHR 0x3E) = False"
  "isAlnum (CHR 0x3F) = False" "isAlnum (CHR 0x40) = False" "isAlnum (CHR 0x41) = True"
  "isAlnum (CHR 0x42) = True" "isAlnum (CHR 0x43) = True" "isAlnum (CHR 0x44) = True"
  "isAlnum (CHR 0x45) = True" "isAlnum (CHR 0x46) = True" "isAlnum (CHR 0x47) = True"
  "isAlnum (CHR 0x48) = True" "isAlnum (CHR 0x49) = True" "isAlnum (CHR 0x4A) = True"
  "isAlnum (CHR 0x4B) = True" "isAlnum (CHR 0x4C) = True" "isAlnum (CHR 0x4D) = True"
  "isAlnum (CHR 0x4E) = True" "isAlnum (CHR 0x4F) = True" "isAlnum (CHR 0x50) = True"
  "isAlnum (CHR 0x51) = True" "isAlnum (CHR 0x52) = True" "isAlnum (CHR 0x53) = True"
  "isAlnum (CHR 0x54) = True" "isAlnum (CHR 0x55) = True" "isAlnum (CHR 0x56) = True"
  "isAlnum (CHR 0x57) = True" "isAlnum (CHR 0x58) = True" "isAlnum (CHR 0x59) = True"
  "isAlnum (CHR 0x5A) = True" "isAlnum (CHR 0x5B) = False" "isAlnum (CHR 0x5C) = False"
  "isAlnum (CHR 0x5D) = False" "isAlnum (CHR 0x5E) = False" "isAlnum (CHR 0x5F) = False"
  "isAlnum (CHR 0x60) = False" "isAlnum (CHR 0x61) = True" "isAlnum (CHR 0x62) = True"
  "isAlnum (CHR 0x63) = True" "isAlnum (CHR 0x64) = True" "isAlnum (CHR 0x65) = True"
  "isAlnum (CHR 0x66) = True" "isAlnum (CHR 0x67) = True" "isAlnum (CHR 0x68) = True"
  "isAlnum (CHR 0x69) = True" "isAlnum (CHR 0x6A) = True" "isAlnum (CHR 0x6B) = True"
  "isAlnum (CHR 0x6C) = True" "isAlnum (CHR 0x6D) = True" "isAlnum (CHR 0x6E) = True"
  "isAlnum (CHR 0x6F) = True" "isAlnum (CHR 0x70) = True" "isAlnum (CHR 0x71) = True"
  "isAlnum (CHR 0x72) = True" "isAlnum (CHR 0x73) = True" "isAlnum (CHR 0x74) = True"
  "isAlnum (CHR 0x75) = True" "isAlnum (CHR 0x76) = True" "isAlnum (CHR 0x77) = True"
  "isAlnum (CHR 0x78) = True" "isAlnum (CHR 0x79) = True" "isAlnum (CHR 0x7A) = True"
  "isAlnum (CHR 0x7B) = False" "isAlnum (CHR 0x7C) = False" "isAlnum (CHR 0x7D) = False"
  "isAlnum (CHR 0x7E) = False"
  by (simp_all add: isAlnum_def isLetter_def isDigit_def)

lemma toLowerChar_upper_table:
  "toLowerChar (CHR 0x41) = CHR 0x61" "toLowerChar (CHR 0x42) = CHR 0x62"
  "toLowerChar (CHR 0x43) = CHR 0x63" "toLowerChar (CHR 0x44) = CHR 0x64"
  "toLowerChar (CHR 0x45) = CHR 0x65" "toLowerChar (CHR 0x46) = CHR 0x66"
  "toLowerChar (CHR 0x47) = CHR 0x67" "toLowerChar (CHR 0x48) = CHR 0x68"
  "toLowerChar (CHR 0x49) = CHR 0x69" "toLowerChar (CHR 0x4A) = CHR 0x6A"
  "toLowerChar (CHR 0x4B) = CHR 0x6B" "toLowerChar (CHR 0x4C) = CHR 0x6C"
  "toLowerChar (CHR 0x4D) = CHR 0x6D" "toLowerChar (CHR 0x4E) = CHR 0x6E"
  "toLowerChar (CHR 0x4F) = CHR 0x6F" "toLowerChar (CHR 0x50) = CHR 0x70"
  "toLowerChar (CHR 0x51) = CHR 0x71" "toLowerChar (CHR 0x52) = CHR 0x72"
  "toLowerChar (CHR 0x53) = CHR 0x73" "toLowerChar (CHR 0x54) = CHR 0x74"
  "toLowerChar (CHR 0x55) = CHR 0x75" "toLowerChar (CHR 0x56) = CHR 0x76"
  "toLowerChar (CHR 0x57) = CHR 0x77" "toLowerChar (CHR 0x58) = CHR 0x78"
  "toLowerChar (CHR 0x59) = CHR 0x79" "toLowerChar (CHR 0x5A) = CHR 0x7A"
  by code_simp+

lemma toLowerChar_other_table:
  "toLowerChar (CHR 0x09) = CHR 0x09" "toLowerChar (CHR 0x0A) = CHR 0x0A"
  "toLowerChar (CHR 0x0B) = CHR 0x0B" "toLowerChar (CHR 0x0C) = CHR 0x0C"
  "toLowerChar (CHR 0x0D) = CHR 0x0D" "toLowerChar (CHR 0x20) = CHR 0x20"
  "toLowerChar (CHR 0x21) = CHR 0x21" "toLowerChar (CHR 0x22) = CHR 0x22"
  "toLowerChar (CHR 0x23) = CHR 0x23" "toLowerChar (CHR 0x24) = CHR 0x24"
  "toLowerChar (CHR 0x25) = CHR 0x25" "toLowerChar (CHR 0x26) = CHR 0x26"
  "toLowerChar (CHR 0x27) = CHR 0x27" "toLowerChar (CHR 0x28) = CHR 0x28"
  "toLowerChar (CHR 0x29) = CHR 0x29" "toLowerChar (CHR 0x2A) = CHR 0x2A"
  "toLowerChar (CHR 0x2B) = CHR 0x2B" "toLowerChar (CHR 0x2C) = CHR 0x2C"
  "toLowerChar (CHR 0x2D) = CHR 0x2D" "toLowerChar (CHR 0x2E) = CHR 0x2E"
  "toLowerChar (CHR 0x2F) = CHR 0x2F" "toLowerChar (CHR 0x30) = CHR 0x30"
  "toLowerChar (CHR 0x31) = CHR 0x31" "toLowerChar (CHR 0x32) = CHR 0x32"
  "toLowerChar (CHR 0x33) = CHR 0x33" "toLowerChar (CHR 0x34) = CHR 0x34"
  "toLowerChar (CHR 0x35) = CHR 0x35" "toLowerChar (CHR 0x36) = CHR 0x36"
  "toLowerChar (CHR 0x37) = CHR 0x37" "toLowerChar (CHR 0x38) = CHR 0x38"
  "toLowerChar (CHR 0x39) = CHR 0x39" "toLowerChar (CHR 0x3A) = CHR 0x3A"
  "toLowerChar (CHR 0x3B) = CHR 0x3B" "toLowerChar (CHR 0x3C) = CHR 0x3C"
  "toLowerChar (CHR 0x3D) = CHR 0x3D" "toLowerChar (CHR 0x3E) = CHR 0x3E"
  "toLowerChar (CHR 0x3F) = CHR 0x3F" "toLowerChar (CHR 0x40) = CHR 0x40"
  "toLowerChar (CHR 0x5B) = CHR 0x5B" "toLowerChar (CHR 0x5C) = CHR 0x5C"
  "toLowerChar (CHR 0x5D) = CHR 0x5D" "toLowerChar (CHR 0x5E) = CHR 0x5E"
  "toLowerChar (CHR 0x5F) = CHR 0x5F" "toLowerChar (CHR 0x60) = CHR 0x60"
  "toLowerChar (CHR 0x61) = CHR 0x61" "toLowerChar (CHR 0x62) = CHR 0x62"
  "toLowerChar (CHR 0x63) = CHR 0x63" "toLowerChar (CHR 0x64) = CHR 0x64"
  "toLowerChar (CHR 0x65) = CHR 0x65" "toLowerChar (CHR 0x66) = CHR 0x66"
  "toLowerChar (CHR 0x67) = CHR 0x67" "toLowerChar (CHR 0x68) = CHR 0x68"
  "toLowerChar (CHR 0x69) = CHR 0x69" "toLowerChar (CHR 0x6A) = CHR 0x6A"
  "toLowerChar (CHR 0x6B) = CHR 0x6B" "toLowerChar (CHR 0x6C) = CHR 0x6C"
  "toLowerChar (CHR 0x6D) = CHR 0x6D" "toLowerChar (CHR 0x6E) = CHR 0x6E"
  "toLowerChar (CHR 0x6F) = CHR 0x6F" "toLowerChar (CHR 0x70) = CHR 0x70"
  "toLowerChar (CHR 0x71) = CHR 0x71" "toLowerChar (CHR 0x72) = CHR 0x72"
  "toLowerChar (CHR 0x73) = CHR 0x73" "toLowerChar (CHR 0x74) = CHR 0x74"
  "toLowerChar (CHR 0x75) = CHR 0x75" "toLowerChar (CHR 0x76) = CHR 0x76"
  "toLowerChar (CHR 0x77) = CHR 0x77" "toLowerChar (CHR 0x78) = CHR 0x78"
  "toLowerChar (CHR 0x79) = CHR 0x79" "toLowerChar (CHR 0x7A) = CHR 0x7A"
  "toLowerChar (CHR 0x7B) = CHR 0x7B" "toLowerChar (CHR 0x7C) = CHR 0x7C"
  "toLowerChar (CHR 0x7D) = CHR 0x7D" "toLowerChar (CHR 0x7E) = CHR 0x7E"
  by (simp_all add: toLowerChar_def)

lemmas char_table = isSpace_table isDigit_table isWordChar_table isAlnum_table
  toLowerChar_upper_table toLowerChar_other_table

section \<open>Normalization where no phrase matches\<close>

lemma startsWithCI_iff: "startsWithCI p s = isPrefixCI p s"
  by (induction p s rule: isPrefixCI.induct) (auto simp: startsWithCI_def toLowerCase_def)

lemma replaceAllFrom_fixed:
  assumes "\<And>prev rest. m prev rest \<noteq> None \<Longrightarrow> isPrefixCI lit rest"
  shows "noOccurrence lit s \<Longrightarrow> replaceAllFrom m r 0 prev s = s"
proof (induction s arbitrary: prev)
  case Nil
  show ?case by simp
next
  case (Cons c cs)
  from Cons.prems have no: "\<not> isPrefixCI lit (c # cs)" and rest: "noOccurrence lit cs"
    by (auto split: if_splits)
  from no assms have "m prev (c # cs) = None" by blast
  with Cons.IH[OF rest] show ?case by simp
qed

lemma replaceAll_phrase_fixed:
  "noOccurrence p s \<Longrightarrow> replaceAll (matchWholePhrase p) r s = s"
  unfolding replaceAll_def
  by (rule replaceAllFrom_fixed[where lit = p]) (auto simp: matchWholePhrase_def startsWithCI_iff split: if_splits)

lemma replaceAll_period_fixed:
  "noOccurrence (a @ ''.'') s \<Longrightarrow> replaceAll (matchPeriodAbbreviation a) r s = s"
  unfolding replaceAll_def
  by (rule replaceAllFrom_fixed[where lit = "a @ ''.''"]) (auto simp: matchPeriodAbbreviation_def startsWithCI_iff split: if_splits)

lemma fold_fixed: "(\<And>x. x \<in> set xs \<Longrightarrow> f x s = s) \<Longrightarrow> fold f xs s = s"
  by (induction xs) simp_all

lemma set_insertBy: "set (insertBy cmp x ys) = insert x (set ys)"
  by (induction ys) auto

lemma set_sortBy: "set (sortBy cmp xs) = set xs"
  by (induction xs) (simp_all add: sortBy_def set_insertBy)

text \<open>Looking a key up in a long literal table: the simplifier walks the table once.\<close>

lemma map_of_None_all: "list_all (\<lambda>(k', v). k' \<noteq> k) xs \<Longrightarrow> map_of xs k = None"
  by (induction xs) auto

lemma map_of_Some_all:
  "list_all (\<lambda>(k', v'). k' = k \<longrightarrow> v' = v) xs \<Longrightarrow> list_ex (\<lambda>(k', v'). k' = k) xs \<Longrightarrow>
   map_of xs k = Some v"
  by (induction xs) auto

lemma multiWord_fixed:
  assumes "list_all (\<lambda>(p, r). noOccurrence p s) MULTI_WORD_ALIASES"
  shows "fold (\<lambda>(pattern, replacement) s. replaceAll (matchWholePhrase pattern) replacement s) sortedMultiWord s = s"
proof (rule fold_fixed)
  fix x assume "x \<in> set sortedMultiWord"
  then have "x \<in> set MULTI_WORD_ALIASES" by (simp add: sortedMultiWord_def set_sortBy)
  with assms have "noOccurrence (fst x) s" by (auto simp: list_all_iff)
  then show "(case x of (pattern, replacement) \<Rightarrow> replaceAll (matchWholePhrase pattern) replacement) s = s"
    by (cases x) (simp add: replaceAll_phrase_fixed)
qed

lemma period_fixed:
  assumes "list_all (\<lambda>(a, r). noOccurrence (a @ ''.'') s) PERIOD_ABBREVIATIONS"
  shows "fold (\<lambda>(abbr, replacement) s. replaceAll (matchPeriodAbbreviation abbr) replacement s) PERIOD_ABBREVIATIONS s = s"
proof (rule fold_fixed)
  fix x assume "x \<in> set PERIOD_ABBREVIATIONS"
  with assms have "noOccurrence (fst x @ ''.'') s" by (auto simp: list_all_iff)
  then show "(case x of (abbr, replacement) \<Rightarrow> replaceAll (matchPeriodAbbreviation abbr) replacement) s = s"
    by (cases x) (simp add: replaceAll_period_fixed)
qed

lemma prr_multi: "list_all (\<lambda>(p, r). noOccurrence p ''prr station'') MULTI_WORD_ALIASES"
  by (simp add: MULTI_WORD_ALIASES_def char_table)

lemma prr_period: "list_all (\<lambda>(a, r). noOccurrence (a @ ''.'') ''prr station'') PERIOD_ABBREVIATIONS"
  by (simp add: PERIOD_ABBREVIATIONS_def char_table)

lemma prr_lower: "trim (toLowerCase ''PRR Station'') = ''prr station''"
  by (simp add: trim_def toLowerCase_def char_table)

lemma prr_article: "stripLeadingArticle ''prr station'' = ''prr station''"
  by (simp add: stripLeadingArticle_def startsWithCI_iff char_table)

lemma prr_split: "splitWs ''prr station'' = [''prr'', ''station'']"
  by (simp add: char_table)

lemma prr_lookup: "lookupSingleWordAlias ''prr'' = Some ''pennsylvania railroad''"
proof -
  have "list_all (\<lambda>(k, v). k = ''prr'' \<longrightarrow> v = ''pennsylvania railroad'') SINGLE_WORD_ALIASES"
    by (simp add: SINGLE_WORD_ALIASES_def)
  moreover have "list_ex (\<lambda>(k, v). k = ''prr'') SINGLE_WORD_ALIASES"
    by (simp add: SINGLE_WORD_ALIASES_def)
  ultimately show ?thesis
    by (simp add: lookupSingleWordAlias_def map_of_Some_all)
qed

lemma station_lookup: "lookupSingleWordAlias ''station'' = None"
proof -
  have "list_all (\<lambda>(k, v). k \<noteq> ''station'') SINGLE_WORD_ALIASES"
    by (simp add: SINGLE_WORD_ALIASES_def)
  then show ?thesis
    by (simp add: lookupSingleWordAlias_def map_of_None_all)
qed

lemma prr_expand: "expandWord ''prr'' = ''pennsylvania railroad''" "expandWord ''station'' = ''station''"
  by (simp_all add: expandWord_def lastOption_def headOption_def prr_lookup station_lookup)

lemma prr_collapse: "trim (replaceAll matchSpaces '' '' ''pennsylvania railroad station'') = ''pennsylvania railroad station''"
  by (simp add: trim_def replaceAll_def matchSpaces_def char_table)

text \<open>
  Claim C9. \<open>normalizeName\<close> turns the name \<open>PRR Station\<close> into
  \<open>pennsylvania railroad station\<close>: the name is lower-cased, no article, period
  abbreviation or multi-word alias applies, and the single-word alias \<open>prr\<close> is expanded to
  \<open>pennsylvania railroad\<close>.
\<close>

theorem normalizeName_PRR_Station: "normalizeName ''PRR Station'' = ''pennsylvania railroad station''"
  unfolding normalizeName_def Let_def prr_lower prr_article period_fixed[OF prr_period]
    multiWord_fixed[OF prr_multi] prr_split
  by (simp add: prr_expand prr_collapse)

section \<open>The match evaluator\<close>

lemma firstDifferent_None: "firstDifferent xs ys = None \<longleftrightarrow> \<not> (\<exists>a \<in> set xs. \<exists>b \<in> set ys. a \<noteq> b)"
  by (auto simp: firstDifferent_def find_None_iff)

lemma firstDifferent_Some: "firstDifferent xs ys = Some p \<Longrightarrow> \<exists>a \<in> set xs. \<exists>b \<in> set ys. a \<noteq> b"
  using firstDifferent_None[of xs ys] by auto

lemma hasConflict_iff: "hasConflict (checkBlockingConflict n1 n2) = blockingWordConflict n1 n2"
proof -
  let ?b1 = "extractBlockingWords n1" and ?b2 = "extractBlockingWords n2"
  show ?thesis
  proof (cases "firstDifferent (directions ?b1) (directions ?b2)")
    case (Some p)
    with firstDifferent_Some[OF Some] show ?thesis
      by (simp add: checkBlockingConflict_def blockingWordConflict_def conflictOf_def)
  next
    case d: None
    show ?thesis
    proof (cases "firstDifferent (temporal ?b1) (temporal ?b2)")
      case (Some p)
      with d firstDifferent_Some[OF Some] show ?thesis
        by (simp add: checkBlockingConflict_def blockingWordConflict_def conflictOf_def)
    next
      case t: None
      show ?thesis
      proof (cases "firstDifferent (numbered ?b1) (numbered ?b2)")
        case (Some p)
        with d t firstDifferent_Some[OF Some] show ?thesis
          by (simp add: checkBlockingConflict_def blockingWordConflict_def conflictOf_def)
      next
        case n: None
        show ?thesis
        proof (cases "firstDifferent (identifiers ?b1) (identifiers ?b2)")
          case (Some p)
          with d t n firstDifferent_Some[OF Some] show ?thesis
            by (simp add: checkBlockingConflict_def blockingWordConflict_def conflictOf_def)
        next
          case i: None
          have "\<not> hasConflict (checkBlockingConflict n1 n2)"
            using d t n i by (simp add: checkBlockingConflict_def)
          moreover have "\<not> blockingWordConflict n1 n2"
            using d t n i by (simp add: blockingWordConflict_def firstDifferent_None)
          ultimately show ?thesis by simp
        qed
      qed
    qed
  qed
qed

lemma decideMatch_values:
  "snd (decideMatch cfg d n1 n2 s b g) \<in> {0, 60, 65, 70, 75, 80, 95} \<and>
   (fst (decideMatch cfg d n1 n2 s b g) = NoMatch) = (snd (decideMatch cfg d n1 n2 s b g) = 0)"
  by (simp add: decideMatch_def Let_def)

lemma checkDuplicate_verdict:
  assumes "checkDuplicate p1 p2 cfg = Some r"
  shows "\<exists>s. combinedNameScore (nameOrEmpty p1) (nameOrEmpty p2) cfg = Some s \<and>
     (matchType r, confidence r) =
       decideMatch cfg (gpsDistance r) (nameOrEmpty p1) (nameOrEmpty p2) s (blockingConflict r) (isGeneric r) \<and>
     gpsDistance r = haversineDistance (lat p1) (lng p1) (lat p2) (lng p2) \<and>
     blockingConflict r = hasConflict (checkBlockingConflict (nameOrEmpty p1) (nameOrEmpty p2)) \<and>
     isGeneric r = (isGenericName (nameOrEmpty p1) \<or> isGenericName (nameOrEmpty p2)) \<and>
     nameScores (nameOrEmpty p1) (nameOrEmpty p2) cfg = Some (nameSimilarity r, tokenSetRatio_of r) \<and>
     s = max (nameSimilarity r) (tokenSetRatio_of r)"
proof -
  obtain sc where sc: "nameScores (nameOrEmpty p1) (nameOrEmpty p2) cfg = Some sc"
    using nameScores_total by blast
  obtain a b where ab: "sc = (a, b)" by (cases sc) auto
  from assms sc ab show ?thesis
    by (auto simp: checkDuplicate_def combinedNameScore_def Let_def)
qed

text \<open>
  Claim C10. For every pair of records and every configuration \<open>checkDuplicate\<close> returns,
  its confidence is one of 0, 60, 65, 70, 75, 80 and 95, and the match type is \<open>none\<close>
  exactly when the confidence is 0.
\<close>

theorem checkDuplicate_confidence_values:
  "\<exists>r. checkDuplicate point1 point2 config = Some r \<and>
       confidence r \<in> {0, 60, 65, 70, 75, 80, 95} \<and>
       (matchType r = NoMatch) = (confidence r = 0)"
proof -
  obtain r where r: "checkDuplicate point1 point2 config = Some r"
    using checkDuplicate_total by blast
  from checkDuplicate_verdict[OF r] obtain s where
    v: "(matchType r, confidence r) =
       decideMatch config (gpsDistance r) (nameOrEmpty point1) (nameOrEmpty point2) s (blockingConflict r) (isGeneric r)"
    by blast
  from v have "matchType r = fst (decideMatch config (gpsDistance r) (nameOrEmpty point1) (nameOrEmpty point2) s (blockingConflict r) (isGeneric r))"
    "confidence r = snd (decideMatch config (gpsDistance r) (nameOrEmpty point1) (nameOrEmpty point2) s (blockingConflict r) (isGeneric r))"
    by (metis fst_conv, metis snd_conv)
  with decideMatch_values[of config "gpsDistance r" "nameOrEmpty point1" "nameOrEmpty point2" s "blockingConflict r" "isGeneric r"] r
  show ?thesis by auto
qed






lemma haversineDistance_same: "haversineDistance a b a b = 0"
  by (simp add: haversineDistance_def toRad_def atan2_def)

lemma checkBlockingConflict_empty: "\<not> hasConflict (checkBlockingConflict [] [])"
  by (simp add: hasConflict_iff blockingWordConflict_def extractBlockingWords_def tokenize_def
      toLowerCase_def IDENTIFIER_PATTERNS_def List.map_filter_def)

lemma nameScores_empty: "nameScores [] [] config = Some (0, 0)"
  by (simp add: nameScores_def)

lemma combinedNameScore_empty: "combinedNameScore [] [] config = Some 0"
  by (simp add: combinedNameScore_def nameScores_empty)

lemma jaroWinklerSimilarity_empty: "jaroWinklerSimilarity [] [] = Some 1"
  by (simp add: jaroWinklerSimilarity_def jaroWinklerSimilarityWith_def)

text \<open>
  Claim C5 says that two empty names get the name score 1.0. They do not: the similarity
  functions are called for two non-empty names only, so that both scores stay 0. Two
  unnamed records at the same place are a \<open>gps\<close> match of confidence 70; a score of 1.0
  would have made them a \<open>both\<close> match of confidence 95.
\<close>

theorem empty_names_score_counterexample:
  "checkDuplicate (namedPoint None) (namedPoint None) DEFAULT_DEDUP_CONFIG =
     Some \<lparr>index1 = 0, index2 = 0, gpsDistance = 0, nameSimilarity = 0, tokenSetRatio_of = 0,
           blockingConflict = False, isGeneric = True, matchType = Gps, confidence = 70\<rparr> \<and>
   combinedNameScore [] [] DEFAULT_DEDUP_CONFIG \<noteq> Some 1"
  using checkBlockingConflict_empty
  by (simp add: checkDuplicate_def nameOrEmpty_def namedPoint_def nameScores_empty combinedNameScore_empty
      haversineDistance_same isGenericName_def decideMatch_def DEFAULT_DEDUP_CONFIG_def
      DEFAULT_CONFIG_NAME_SIMILARITY_THRESHOLD_def)

text \<open>
  Claim C5, amended. For every pair of records whose names are both empty (or null),
  \<open>checkDuplicate\<close> returns with name similarity 0 and token set ratio 0; the combined name
  score is 0 and enters the decision like any other score, although
  \<open>jaroWinklerSimilarity\<close> of two empty strings is 1.
\<close>

theorem empty_names_score_zero:
  assumes "nameOrEmpty point1 = []" and "nameOrEmpty point2 = []"
  shows "\<exists>r. checkDuplicate point1 point2 config = Some r \<and>
           nameSimilarity r = 0 \<and> tokenSetRatio_of r = 0 \<and>
           combinedNameScore (nameOrEmpty point1) (nameOrEmpty point2) config = Some 0 \<and>
           (matchType r, confidence r) = decideMatch config (gpsDistance r) [] [] 0 False True \<and>
           jaroWinklerSimilarity (nameOrEmpty point1) (nameOrEmpty point2) = Some 1"
proof -
  obtain r where r: "checkDuplicate point1 point2 config = Some r"
    using checkDuplicate_total by blast
  from checkDuplicate_verdict[OF r] assms checkBlockingConflict_empty
  have "nameSimilarity r = 0 \<and> tokenSetRatio_of r = 0 \<and>
        (matchType r, confidence r) = decideMatch config (gpsDistance r) [] [] 0 False True"
    by (auto simp: nameScores_empty combinedNameScore_empty isGenericName_def)
  with r assms show ?thesis
    by (simp add: combinedNameScore_empty jaroWinklerSimilarity_empty)
qed

theorem empty_names_score_zero_witness:
  "nameOrEmpty (namedPoint None) = [] \<and> nameOrEmpty (namedPoint (Some [])) = [] \<and>
   (\<exists>r. checkDuplicate (namedPoint None) (namedPoint (Some [])) DEFAULT_DEDUP_CONFIG = Some r \<and>
           nameSimilarity r = 0 \<and> tokenSetRatio_of r = 0 \<and>
           combinedNameScore [] [] DEFAULT_DEDUP_CONFIG = Some 0 \<and>
           (matchType r, confidence r) = decideMatch DEFAULT_DEDUP_CONFIG (gpsDistance r) [] [] 0 False True \<and>
           jaroWinklerSimilarity [] [] = Some 1)"
  using empty_names_score_zero[of "namedPoint None" "namedPoint (Some [])" DEFAULT_DEDUP_CONFIG]
  by (simp add: nameOrEmpty_def namedPoint_def)

section \<open>Token set ratio of two station names\<close>

lemma sorted_tokens_1: "sortedTokenString [''union'', ''station'', ''lockport''] = ''lockport station union''"
  by (simp add: sortedTokenString_def sortBy_def defaultCompare_def)

lemma sorted_tokens_2:
  "sortedTokenString [''union'', ''station'', ''lockport'', ''train''] = ''lockport station train union''"
  by (simp add: sortedTokenString_def sortBy_def defaultCompare_def)

lemma tokenize_Union_Station_Lockport:
  "tokenize ''Union Station - Lockport'' = [''union'', ''station'', ''lockport'']"
  by (simp add: tokenize_def toLowerCase_def char_table)

lemma tokenize_Lockport_Union_Train_Station:
  "tokenize ''Lockport Union Train Station'' = [''lockport'', ''union'', ''train'', ''station'']"
  by (simp add: tokenize_def toLowerCase_def char_table)

lemma jaroWinklerSimilarity_same: "jaroWinklerSimilarity s s = Some 1"
  by (simp add: jaroWinklerSimilarity_def jaroWinklerSimilarityWith_def)

text \<open>
  Claim C8. The token set ratio of \<open>Union Station - Lockport\<close> and
  \<open>Lockport Union Train Station\<close> is greater than 0.90: the tokens of the first name are
  among those of the second, so that the intersection compared with the first combination
  scores 1.
\<close>

theorem tokenSetRatio_Union_Station_Lockport:
  "\<exists>r. tokenSetRatio ''Union Station - Lockport'' ''Lockport Union Train Station'' = Some r \<and> r > 0.90"
proof -
  let ?i = "''lockport station union''" and ?c = "''lockport station train union''"
  obtain x where x: "jaroWinklerSimilarity ?i ?c = Some x"
    using jaroWinklerSimilarity_total by blast
  have "tokenSetRatio ''Union Station - Lockport'' ''Lockport Union Train Station'' =
        Some (fold max [1, x, x] 0)"
    unfolding tokenSetRatio_def Let_def tokenize_Union_Station_Lockport tokenize_Lockport_Union_Train_Station
    by (simp add: sorted_tokens_1 sorted_tokens_2 jaroWinklerSimilarity_same x)
  then show ?thesis by (simp add: max_def)
qed

section \<open>The word-overlap boost in the match evaluator\<close>

lemma normalizeName_plain:
  assumes "nm \<noteq> []"
    and "trim (toLowerCase nm) = s"
    and "stripLeadingArticle s = s"
    and "list_all (\<lambda>(a, r). noOccurrence (a @ ''.'') s) PERIOD_ABBREVIATIONS"
    and "list_all (\<lambda>(p, r). noOccurrence p s) MULTI_WORD_ALIASES"
  shows "normalizeName nm = trim (replaceAll matchSpaces '' '' (join '' '' (map expandWord (splitWs s))))"
  using assms(1) unfolding normalizeName_def Let_def assms(2) assms(3) period_fixed[OF assms(4)] multiWord_fixed[OF assms(5)]
  by simp

lemma lookup_absent:
  assumes "list_all (\<lambda>(k, v). k \<noteq> w) SINGLE_WORD_ALIASES" "w \<noteq> ''constructor''" "w \<noteq> ''__proto__''"
  shows "lookupSingleWordAlias w = None"
  using assms by (simp add: lookupSingleWordAlias_def map_of_None_all)

lemma lookup_present:
  assumes "list_all (\<lambda>(k, v). k = w \<longrightarrow> v = e) SINGLE_WORD_ALIASES" "list_ex (\<lambda>(k, v). k = w) SINGLE_WORD_ALIASES"
  shows "lookupSingleWordAlias w = Some e"
  using assms by (simp add: lookupSingleWordAlias_def map_of_Some_all)

lemma union_lookup: "lookupSingleWordAlias ''union'' = None"
  by (rule lookup_absent) (simp_all add: SINGLE_WORD_ALIASES_def)

lemma depot_lookup: "lookupSingleWordAlias ''depot'' = Some ''depot''"
  by (rule lookup_present) (simp_all add: SINGLE_WORD_ALIASES_def)

lemma normalizeName_Union_Station: "normalizeName ''Union Station'' = ''union station''"
proof -
  have "normalizeName ''Union Station'' =
        trim (replaceAll matchSpaces '' '' (join '' '' (map expandWord (splitWs ''union station''))))"
  proof (rule normalizeName_plain)
    show "trim (toLowerCase ''Union Station'') = ''union station''"
      by (simp add: trim_def toLowerCase_def char_table)
    show "stripLeadingArticle ''union station'' = ''union station''"
      by (simp add: stripLeadingArticle_def startsWithCI_iff char_table)
    show "list_all (\<lambda>(a, r). noOccurrence (a @ ''.'') ''union station'') PERIOD_ABBREVIATIONS"
      by (simp add: PERIOD_ABBREVIATIONS_def char_table)
    show "list_all (\<lambda>(p, r). noOccurrence p ''union station'') MULTI_WORD_ALIASES"
      by (simp add: MULTI_WORD_ALIASES_def char_table)
  qed simp
  moreover have "splitWs ''union station'' = [''union'', ''station'']"
    by (simp add: char_table)
  moreover have "expandWord ''union'' = ''union''" "expandWord ''station'' = ''station''"
    by (simp_all add: expandWord_def lastOption_def headOption_def union_lookup station_lookup)
  moreover have "trim (replaceAll matchSpaces '' '' ''union station'') = ''union station''"
    by (simp add: trim_def replaceAll_def matchSpaces_def char_table)
  ultimately show ?thesis by simp
qed

lemma normalizeName_Union_Depot: "normalizeName ''Union Depot'' = ''union depot''"
proof -
  have "normalizeName ''Union Depot'' =
        trim (replaceAll matchSpaces '' '' (join '' '' (map expandWord (splitWs ''union depot''))))"
  proof (rule normalizeName_plain)
    show "trim (toLowerCase ''Union Depot'') = ''union depot''"
      by (simp add: trim_def toLowerCase_def char_table)
    show "stripLeadingArticle ''union depot'' = ''union depot''"
      by (simp add: stripLeadingArticle_def startsWithCI_iff char_table)
    show "list_all (\<lambda>(a, r). noOccurrence (a @ ''.'') ''union depot'') PERIOD_ABBREVIATIONS"
      by (simp add: PERIOD_ABBREVIATIONS_def char_table)
    show "list_all (\<lambda>(p, r). noOccurrence p ''union depot'') MULTI_WORD_ALIASES"
      by (simp add: MULTI_WORD_ALIASES_def char_table)
  qed simp
  moreover have "splitWs ''union depot'' = [''union'', ''depot'']"
    by (simp add: char_table)
  moreover have "expandWord ''union'' = ''union''" "expandWord ''depot'' = ''depot''"
    by (simp_all add: expandWord_def lastOption_def headOption_def union_lookup depot_lookup)
  moreover have "trim (replaceAll matchSpaces '' '' ''union depot'') = ''union depot''"
    by (simp add: trim_def replaceAll_def matchSpaces_def char_table)
  ultimately show ?thesis by simp
qed

lemma firstMatch_none:
  assumes "\<And>prev rest. m prev rest \<noteq> None \<Longrightarrow> isPrefixCI lit rest"
  shows "noOccurrence lit s \<Longrightarrow> firstMatch m prev s = None"
proof (induction s arbitrary: prev)
  case Nil
  show ?case by simp
next
  case (Cons c cs)
  from Cons.prems have no: "\<not> isPrefixCI lit (c # cs)" and rest: "noOccurrence lit cs"
    by (auto split: if_splits)
  from no assms have "m prev (c # cs) = None" by blast
  with Cons.IH[OF rest] show ?case by simp
qed

lemma identifiers_empty:
  assumes "list_all (\<lambda>kw. noOccurrence kw (toLowerCase nm)) IDENTIFIER_PATTERNS"
  shows "identifiers (extractBlockingWords nm) = []"
proof -
  have "firstMatch (matchIdentifier kw) None (toLowerCase nm) = None" if "kw \<in> set IDENTIFIER_PATTERNS" for kw
  proof (rule firstMatch_none[where lit = kw])
    show "noOccurrence kw (toLowerCase nm)" using assms that by (simp add: list_all_iff)
  qed (auto simp: matchIdentifier_def Let_def startsWithCI_iff split: if_splits)
  then have "List.map_filter (\<lambda>kw. firstMatch (matchIdentifier kw) None (toLowerCase nm)) IDENTIFIER_PATTERNS = []"
    by (simp add: List.map_filter_def filter_empty_conv)
  then show ?thesis by (simp add: extractBlockingWords_def Let_def)
qed

lemma tokenize_Union_Station: "tokenize ''Union Station'' = [''union'', ''station'']"
  by (simp add: tokenize_def toLowerCase_def char_table)

lemma tokenize_Union_Depot: "tokenize ''Union Depot'' = [''union'', ''depot'']"
  by (simp add: tokenize_def toLowerCase_def char_table)

lemma Union_no_conflict: "\<not> hasConflict (checkBlockingConflict ''Union Station'' ''Union Depot'')"
proof -
  have "identifiers (extractBlockingWords ''Union Station'') = []"
    by (rule identifiers_empty) (simp add: IDENTIFIER_PATTERNS_def toLowerCase_def char_table)
  moreover have "directions (extractBlockingWords ''Union Station'') = []"
    "temporal (extractBlockingWords ''Union Station'') = []"
    "numbered (extractBlockingWords ''Union Station'') = []"
    by (simp_all add: extractBlockingWords_def tokenize_Union_Station BLOCKING_WORDS_directions_def
        BLOCKING_WORDS_temporal_def BLOCKING_WORDS_numbered_def)
  ultimately show ?thesis by (simp add: hasConflict_iff blockingWordConflict_def Let_def)
qed

lemma Union_not_generic: "\<not> isGenericName ''Union Station''" "\<not> isGenericName ''Union Depot''"
  by (simp_all add: isGenericName_def tokenize_Union_Station tokenize_Union_Depot
      SUGGESTION_GENERIC_WORDS_def SUGGESTION_REGION_WORDS_def)

lemma Union_similarity: "jaroWinklerSimilarity ''union station'' ''union depot'' = Some (965 / 1144)"
  by code_simp

lemma Union_scores:
  "jaroWinklerSimilarity ''union'' ''station union'' = Some (901 / 1560)"
  "jaroWinklerSimilarity ''union'' ''depot union'' = Some (29 / 55)"
  "jaroWinklerSimilarity ''station union'' ''depot union'' = Some (527 / 858)"
  by code_simp+

lemma Union_tokenSetRatio: "tokenSetRatio ''Union Station'' ''Union Depot'' = Some (527 / 858)"
proof -
  have "sortedTokenString [''union''] = ''union''"
    "sortedTokenString [''union'', ''station''] = ''station union''"
    "sortedTokenString [''union'', ''depot''] = ''depot union''"
    by (simp_all add: sortedTokenString_def sortBy_def defaultCompare_def)
  then show ?thesis
    unfolding tokenSetRatio_def Let_def tokenize_Union_Station tokenize_Union_Depot
    by (simp add: Union_scores)
qed

lemma Union_overlap:
  "calculateWordOverlap ''union station'' ''union depot'' =
     \<lparr>exactMatches = [''union''], overlapRatio = 1 / 3, totalUniqueWords = 3, shouldBoost = True\<rparr>"
  by (simp add: calculateWordOverlap_def char_table)

text \<open>
  Claim C4 says that with word-overlap boosting enabled a pair whose normalized names share
  a word (overlap ratio at least 0.25) is compared against the lowered threshold. The code
  of \<open>checkDuplicate\<close> compares against \<open>nameThreshold\<close> itself. For
  \<open>Union Station\<close> and \<open>Union Depot\<close> at the same place, under the default
  configuration: the names share \<open>union\<close>, the adjusted threshold is 0.75, the combined name
  score is 965/1144 (about 0.84), and the verdict is \<open>both\<close> with confidence 75, where a
  comparison against 0.75 gives \<open>both\<close> with confidence 95.
\<close>

theorem word_overlap_boost_ignored:
  "checkDuplicate (namedPoint (Some ''Union Station'')) (namedPoint (Some ''Union Depot'')) DEFAULT_DEDUP_CONFIG =
     Some \<lparr>index1 = 0, index2 = 0, gpsDistance = 0, nameSimilarity = 965 / 1144,
           tokenSetRatio_of = 527 / 858, blockingConflict = False, isGeneric = False,
           matchType = Both, confidence = 75\<rparr> \<and>
   useSmartMatch DEFAULT_DEDUP_CONFIG \<and>
   shouldBoost (calculateWordOverlap (normalizeName ''Union Station'') (normalizeName ''Union Depot'')) \<and>
   getAdjustedThreshold ''Union Station'' ''Union Depot'' (nameThreshold DEFAULT_DEDUP_CONFIG) = 0.75 \<and>
   decideMatch (DEFAULT_DEDUP_CONFIG\<lparr>nameThreshold := 0.75\<rparr>) 0 ''Union Station'' ''Union Depot''
     (965 / 1144) False False = (Both, 95)"
proof -
  have "nameScores ''Union Station'' ''Union Depot'' DEFAULT_DEDUP_CONFIG = Some (965 / 1144, 527 / 858)"
    by (simp add: nameScores_def normalizedSimilarity_def normalizeName_Union_Station normalizeName_Union_Depot
        Union_similarity Union_tokenSetRatio DEFAULT_DEDUP_CONFIG_def)
  then have "checkDuplicate (namedPoint (Some ''Union Station'')) (namedPoint (Some ''Union Depot'')) DEFAULT_DEDUP_CONFIG =
     Some \<lparr>index1 = 0, index2 = 0, gpsDistance = 0, nameSimilarity = 965 / 1144,
           tokenSetRatio_of = 527 / 858, blockingConflict = False, isGeneric = False,
           matchType = Both, confidence = 75\<rparr>"
    using Union_no_conflict Union_not_generic
    by (simp add: checkDuplicate_def nameOrEmpty_def namedPoint_def haversineDistance_same decideMatch_def
        DEFAULT_DEDUP_CONFIG_def DEFAULT_CONFIG_NAME_SIMILARITY_THRESHOLD_def)
  moreover have "getAdjustedThreshold ''Union Station'' ''Union Depot'' (nameThreshold DEFAULT_DEDUP_CONFIG) = 0.75"
    by (simp add: getAdjustedThreshold_def normalizeName_Union_Station normalizeName_Union_Depot Union_overlap
        DEFAULT_DEDUP_CONFIG_def DEFAULT_CONFIG_NAME_SIMILARITY_THRESHOLD_def
        DEFAULT_CONFIG_WORD_OVERLAP_BOOST_def DEFAULT_CONFIG_MIN_BOOSTED_THRESHOLD_def)
  moreover have "decideMatch (DEFAULT_DEDUP_CONFIG\<lparr>nameThreshold := 0.75\<rparr>) 0 ''Union Station'' ''Union Depot''
     (965 / 1144) False False = (Both, 95)"
    by (simp add: decideMatch_def DEFAULT_DEDUP_CONFIG_def)
  ultimately show ?thesis
    by (simp add: normalizeName_Union_Station normalizeName_Union_Depot Union_overlap DEFAULT_DEDUP_CONFIG_def)
qed

section \<open>Union-find: roots and path compression\<close>

lemma rootOf_bounds: "rootOf p x r \<Longrightarrow> x < length p \<and> r < length p \<and> p ! r = r"
  by (induction rule: rootOf.induct) auto

lemma rootOf_unique: "rootOf p x r \<Longrightarrow> rootOf p x r' \<Longrightarrow> r = r'"
proof (induction arbitrary: r' rule: rootOf.induct)
  case (rootOf_here x)
  from rootOf_here.prems rootOf_here.hyps show ?case
    by (cases rule: rootOf.cases) auto
next
  case (rootOf_up x r)
  from rootOf_up.prems rootOf_up.hyps(2) have "rootOf p (p ! x) r'"
    by (cases rule: rootOf.cases) auto
  then show ?case by (rule rootOf_up.IH)
qed

lemma repr_eq: "rootOf p x r \<Longrightarrow> repr p x = r"
  unfolding repr_def by (rule the_equality) (auto dest: rootOf_unique)

lemma forest_rootOf: "forest p \<Longrightarrow> x < length p \<Longrightarrow> rootOf p x (repr p x)"
  unfolding forest_def using repr_eq by metis

lemma repr_less: "forest p \<Longrightarrow> x < length p \<Longrightarrow> repr p x < length p"
  using forest_rootOf rootOf_bounds by blast

lemma repr_idem: "forest p \<Longrightarrow> x < length p \<Longrightarrow> repr p (repr p x) = repr p x"
proof -
  assume a: "forest p" "x < length p"
  from forest_rootOf[OF a] rootOf_bounds have "repr p x < length p" "p ! repr p x = repr p x" by blast+
  then have "rootOf p (repr p x) (repr p x)" by (rule rootOf_here)
  then show ?thesis by (rule repr_eq)
qed

lemma repr_root_iff: "forest p \<Longrightarrow> r < length p \<Longrightarrow> (repr p r = r) = (p ! r = r)"
  using forest_rootOf rootOf_bounds rootOf_here repr_eq by metis

text \<open>Path compression keeps every root.\<close>

lemma rootOf_compress:
  assumes xr: "rootOf q x r"
  shows "rootOf q y s \<Longrightarrow> rootOf (q[x := r]) y s"
proof (induction rule: rootOf.induct)
  case (rootOf_here y)
  show ?case
  proof (cases "y = x")
    case True
    with rootOf_here have "rootOf q x x" by (simp add: rootOf.rootOf_here)
    with xr have "r = x" by (rule rootOf_unique)
    with True rootOf_here show ?thesis by (simp add: rootOf.rootOf_here)
  next
    case False
    with rootOf_here show ?thesis by (simp add: rootOf.rootOf_here)
  qed
next
  case (rootOf_up y s)
  show ?case
  proof (cases "y = x")
    case True
    from rootOf_up.hyps have "rootOf q y s" by (rule rootOf.rootOf_up)
    with True xr have sr: "s = r" using rootOf_unique by blast
    from rootOf_bounds[OF xr] have r: "r < length q" "q ! r = r" by auto
    with rootOf_up.hyps True have "r \<noteq> x" by auto
    with r have "rootOf (q[x := r]) r r" by (simp add: rootOf.rootOf_here)
    then have 3: "rootOf (q[x := r]) (q[x := r] ! x) r" using rootOf_up.hyps(1) True by simp
    have 1: "x < length (q[x := r])" using rootOf_up.hyps(1) True by simp
    have 2: "q[x := r] ! x \<noteq> x" using rootOf_up.hyps(1) True \<open>r \<noteq> x\<close> by simp
    show ?thesis using rootOf.rootOf_up[OF 1 2 3] True sr by simp
  next
    case False
    have 1: "y < length (q[x := r])" using rootOf_up.hyps(1) by simp
    have 2: "q[x := r] ! y \<noteq> y" using rootOf_up.hyps(2) False by simp
    have 3: "rootOf (q[x := r]) (q[x := r] ! y) s" using rootOf_up.IH False by simp
    show ?thesis by (rule rootOf.rootOf_up[OF 1 2 3])
  qed
qed

lemma findParent_rootOf:
  "rootOf p x r \<Longrightarrow>
   \<exists>p'. findParent p x = Some (p', r) \<and> length p' = length p \<and> (\<forall>y s. rootOf p y s \<longrightarrow> rootOf p' y s)"
proof (induction rule: rootOf.induct)
  case (rootOf_here x)
  then show ?case by (subst findParent.simps) auto
next
  case (rootOf_up x r)
  then obtain p1 where p1: "findParent p (p ! x) = Some (p1, r)" "length p1 = length p"
    "\<forall>y s. rootOf p y s \<longrightarrow> rootOf p1 y s" by blast
  from rootOf_up.hyps have "rootOf p x r" by (rule rootOf.rootOf_up)
  with p1 have "rootOf p1 x r" by blast
  then have "\<forall>y s. rootOf p1 y s \<longrightarrow> rootOf (p1[x := r]) y s" using rootOf_compress by blast
  with p1 have "\<forall>y s. rootOf p y s \<longrightarrow> rootOf (p1[x := r]) y s" by blast
  moreover have "findParent p x = Some (p1[x := r], r)"
    using rootOf_up.hyps p1 by (subst findParent.simps) simp
  ultimately show ?case using p1 by auto
qed

lemma forest_preserved:
  assumes "forest p" "length p' = length p" "\<forall>y s. rootOf p y s \<longrightarrow> rootOf p' y s"
  shows "forest p' \<and> (\<forall>y < length p. repr p' y = repr p y)"
proof -
  have R: "rootOf p' y (repr p y)" if "y < length p" for y
    using assms that forest_rootOf by blast
  have "forest p'" unfolding forest_def using R assms(2) by auto
  moreover have "repr p' y = repr p y" if "y < length p" for y
    using R[OF that] by (rule repr_eq)
  ultimately show ?thesis by blast
qed

lemma UnionFind_find_spec:
  assumes "ufOk n u" "x < n"
  shows "\<exists>u'. UnionFind_find u x = Some (u', repr (parent u) x) \<and> ufOk n u' \<and>
           (\<forall>y < n. repr (parent u') y = repr (parent u) y) \<and> rank u' = rank u \<and> sizes u' = sizes u"
proof -
  from assms have f: "forest (parent u)" and l: "length (parent u) = n" by (auto simp: ufOk_def)
  from forest_rootOf[OF f] assms l have "rootOf (parent u) x (repr (parent u) x)" by simp
  from findParent_rootOf[OF this] obtain p' where
    p': "findParent (parent u) x = Some (p', repr (parent u) x)" "length p' = length (parent u)"
    "\<forall>y s. rootOf (parent u) y s \<longrightarrow> rootOf p' y s" by blast
  from forest_preserved[OF f p'(2) p'(3)] l
  have "forest p'" "\<forall>y < n. repr p' y = repr (parent u) y" by auto
  with p' assms show ?thesis by (simp add: UnionFind_find_def ufOk_def)
qed

text \<open>Linking the root \<open>b\<close> below the root \<open>a\<close>.\<close>

lemma rootOf_link:
  assumes a: "a < length q" "q ! a = a" and b: "b < length q" "q ! b = b" and ab: "a \<noteq> b"
  shows "rootOf q y s \<Longrightarrow> rootOf (q[b := a]) y (if s = b then a else s)"
proof (induction rule: rootOf.induct)
  case (rootOf_here y)
  show ?case
  proof (cases "y = b")
    case True
    from a ab have "rootOf (q[b := a]) a a" by (simp add: rootOf.rootOf_here)
    then have 3: "rootOf (q[b := a]) (q[b := a] ! b) a" using b by simp
    have 1: "b < length (q[b := a])" using b by simp
    have 2: "q[b := a] ! b \<noteq> b" using b ab by simp
    show ?thesis using rootOf.rootOf_up[OF 1 2 3] True by simp
  next
    case False
    with rootOf_here show ?thesis by (simp add: rootOf.rootOf_here)
  qed
next
  case (rootOf_up y s)
  from rootOf_up.hyps b have yb: "y \<noteq> b" by auto
  have 1: "y < length (q[b := a])" using rootOf_up.hyps(1) by simp
  have 2: "q[b := a] ! y \<noteq> y" using rootOf_up.hyps(2) yb by simp
  have 3: "rootOf (q[b := a]) (q[b := a] ! y) (if s = b then a else s)" using rootOf_up.IH yb by simp
  show ?case by (rule rootOf.rootOf_up[OF 1 2 3])
qed

lemma forest_link:
  assumes f: "forest q" and a: "a < length q" "q ! a = a" and b: "b < length q" "q ! b = b" and ab: "a \<noteq> b"
  shows "forest (q[b := a]) \<and> (\<forall>y < length q. repr (q[b := a]) y = (if repr q y = b then a else repr q y))"
proof -
  have R: "rootOf (q[b := a]) y (if repr q y = b then a else repr q y)" if "y < length q" for y
    using rootOf_link[OF a b ab forest_rootOf[OF f that]] .
  have "forest (q[b := a])" unfolding forest_def using R by auto
  moreover have "repr (q[b := a]) y = (if repr q y = b then a else repr q y)" if "y < length q" for y
    using R[OF that] by (rule repr_eq)
  ultimately show ?thesis by blast
qed

lemma UnionFind_union_spec:
  assumes ok: "ufOk n u" and x: "x < n" and y: "y < n"
    and ne: "repr (parent u) x \<noteq> repr (parent u) y"
  shows "\<exists>u' new. UnionFind_union u x y = Some (u', True) \<and> ufOk n u' \<and>
           (new = repr (parent u) x \<or> new = repr (parent u) y) \<and>
           (\<forall>z < n. repr (parent u') z =
              (if repr (parent u) z = repr (parent u) x \<or> repr (parent u) z = repr (parent u) y
               then new else repr (parent u) z))"
proof -
  let ?rx = "repr (parent u) x" and ?ry = "repr (parent u) y"
  from UnionFind_find_spec[OF ok x] obtain u1 where
    u1: "UnionFind_find u x = Some (u1, ?rx)" "ufOk n u1"
    "\<forall>z < n. repr (parent u1) z = repr (parent u) z" by blast
  from UnionFind_find_spec[OF u1(2) y] u1(3) y obtain u2 where
    u2: "UnionFind_find u1 y = Some (u2, ?ry)" "ufOk n u2"
    "\<forall>z < n. repr (parent u2) z = repr (parent u) z" by auto
  let ?q = "parent u2"
  from u2(2) have f: "forest ?q" and l: "length ?q = n" "length (rank u2) = n" "length (sizes u2) = n"
    by (auto simp: ufOk_def)
  from u2(3) x y have rr: "repr ?q x = ?rx" "repr ?q y = ?ry" by auto
  have rx: "?rx < length ?q" "?q ! ?rx = ?rx"
    using forest_rootOf[OF f, of x] rootOf_bounds x l rr by auto
  have ry: "?ry < length ?q" "?q ! ?ry = ?ry"
    using forest_rootOf[OF f, of y] rootOf_bounds y l rr by auto
  from forest_link[OF f rx ry ne] l u2(3)
  have A: "forest (?q[?ry := ?rx])"
    "\<forall>z < n. repr (?q[?ry := ?rx]) z = (if repr (parent u) z = ?rx \<or> repr (parent u) z = ?ry then ?rx else repr (parent u) z)"
    by auto
  from forest_link[OF f ry rx ne[symmetric]] l u2(3)
  have B: "forest (?q[?rx := ?ry])"
    "\<forall>z < n. repr (?q[?rx := ?ry]) z = (if repr (parent u) z = ?rx \<or> repr (parent u) z = ?ry then ?ry else repr (parent u) z)"
    by auto
  show ?thesis
  proof (cases "rank u2 ! ?rx < rank u2 ! ?ry")
    case True
    let ?u' = "u2\<lparr>parent := ?q[?rx := ?ry], sizes := (sizes u2)[?ry := sizes u2 ! ?ry + sizes u2 ! ?rx]\<rparr>"
    have "UnionFind_union u x y = Some (?u', True)"
      using u1(1) u2(1) ne True by (simp add: UnionFind_union_def)
    moreover have "ufOk n ?u'" using B(1) l by (simp add: ufOk_def)
    ultimately show ?thesis using B(2) by (intro exI[of _ ?u'] exI[of _ ?ry]) simp
  next
    case False
    show ?thesis
    proof (cases "rank u2 ! ?rx > rank u2 ! ?ry")
      case True
      let ?u' = "u2\<lparr>parent := ?q[?ry := ?rx], sizes := (sizes u2)[?rx := sizes u2 ! ?rx + sizes u2 ! ?ry]\<rparr>"
      have "UnionFind_union u x y = Some (?u', True)"
        using u1(1) u2(1) ne True False by (simp add: UnionFind_union_def)
      moreover have "ufOk n ?u'" using A(1) l by (simp add: ufOk_def)
      ultimately show ?thesis using A(2) by (intro exI[of _ ?u'] exI[of _ ?rx]) simp
    next
      case F2: False
      let ?u' = "u2\<lparr>parent := ?q[?ry := ?rx], sizes := (sizes u2)[?rx := sizes u2 ! ?rx + sizes u2 ! ?ry],
                  rank := (rank u2)[?rx := rank u2 ! ?rx + 1]\<rparr>"
      have "UnionFind_union u x y = Some (?u', True)"
        using u1(1) u2(1) ne False F2 by (simp add: UnionFind_union_def)
      moreover have "ufOk n ?u'" using A(1) l by (simp add: ufOk_def)
      ultimately show ?thesis using A(2) by (intro exI[of _ ?u'] exI[of _ ?rx]) simp
    qed
  qed
qed

section \<open>The merge loop keeps its invariant\<close>

lemma set_newSet: "set (newSet xs) = set xs"
  by (induction xs rule: newSet.induct) auto

lemma distinct_newSet: "distinct (newSet xs)"
  by (induction xs rule: newSet.induct) (auto simp: set_newSet)

lemma length_newSet: "length (newSet xs) \<le> length xs"
proof (induction xs rule: newSet.induct)
  case 1
  show ?case by simp
next
  case (2 x xs)
  have "length (filter (\<lambda>y. y \<noteq> x) xs) \<le> length xs" by simp
  with 2 have "length (newSet (filter (\<lambda>y. y \<noteq> x) xs)) \<le> length xs" by (rule le_trans)
  then show ?case by simp
qed

lemma haversineDistance_sym: "haversineDistance a b c d = haversineDistance c d a b"
proof -
  have 1: "toRad (c - a) / 2 = - (toRad (a - c) / 2)" by (simp add: toRad_def field_simps)
  have 2: "toRad (d - b) / 2 = - (toRad (b - d) / 2)" by (simp add: toRad_def field_simps)
  have "(sin (toRad (c - a) / 2))\<^sup>2 = (sin (toRad (a - c) / 2))\<^sup>2"
    unfolding 1 by simp
  moreover have "(sin (toRad (d - b) / 2))\<^sup>2 = (sin (toRad (b - d) / 2))\<^sup>2"
    unfolding 2 by simp
  ultimately show ?thesis
    by (simp add: haversineDistance_def Let_def mult.commute)
qed

lemma pointDistance_sym: "pointDistance points a b = pointDistance points b a"
  unfolding pointDistance_def by (rule haversineDistance_sym)

lemma pointDistance_same: "pointDistance points a a = 0"
  unfolding pointDistance_def by (rule haversineDistance_same)

lemma fold_maxStep_ge: "m \<le> fold (maxStep points) ps m"
proof (induction ps arbitrary: m)
  case Nil
  show ?case by simp
next
  case (Cons q ps)
  obtain a b where q: "q = (a, b)" by (cases q) auto
  have "m \<le> maxStep points q m" by (simp add: maxStep_def q Let_def)
  also have "\<dots> \<le> fold (maxStep points) ps (maxStep points q m)" by (rule Cons.IH)
  finally show ?case by simp
qed

lemma fold_maxStep_member:
  "(a, b) \<in> set ps \<Longrightarrow> pointDistance points a b \<le> fold (maxStep points) ps m"
proof (induction ps arbitrary: m)
  case Nil
  then show ?case by simp
next
  case (Cons q ps)
  show ?case
  proof (cases "q = (a, b)")
    case True
    have "pointDistance points a b \<le> maxStep points q m" by (simp add: maxStep_def True Let_def)
    also have "\<dots> \<le> fold (maxStep points) ps (maxStep points q m)" by (rule fold_maxStep_ge)
    finally show ?thesis by simp
  next
    case False
    with Cons.prems have "(a, b) \<in> set ps" by simp
    from Cons.IH[OF this] show ?thesis by simp
  qed
qed


lemma set_pairsOf: "(a, b) \<in> set (pairsOf xs) \<Longrightarrow> a \<in> set xs \<and> b \<in> set xs"
  by (induction xs) auto

lemma pairsOf_covers:
  "a \<in> set xs \<Longrightarrow> b \<in> set xs \<Longrightarrow> a \<noteq> b \<Longrightarrow> (a, b) \<in> set (pairsOf xs) \<or> (b, a) \<in> set (pairsOf xs)"
  by (induction xs) auto

lemma calculateClusterDiameter_fold:
  "calculateClusterDiameter points xs = fold (maxStep points) (pairsOf xs) 0"
proof (cases "length xs \<le> 1")
  case True
  then have "pairsOf xs = []" by (cases xs) (auto simp: le_Suc_eq)
  with True show ?thesis by (simp add: calculateClusterDiameter_def)
next
  case False
  then show ?thesis by (simp add: calculateClusterDiameter_def maxStep_def)
qed

lemma diameter_bounds_pairs:
  assumes "calculateClusterDiameter points xs \<le> D" "0 \<le> D" "a \<in> set xs" "b \<in> set xs"
  shows "pointDistance points a b \<le> D"
proof (cases "a = b")
  case True
  with assms(2) show ?thesis by (simp add: pointDistance_same)
next
  case False
  from pairsOf_covers[OF assms(3,4) False] show ?thesis
  proof
    assume "(a, b) \<in> set (pairsOf xs)"
    from fold_maxStep_member[OF this, of points 0] assms(1) show ?thesis
      by (simp add: calculateClusterDiameter_fold)
  next
    assume "(b, a) \<in> set (pairsOf xs)"
    from fold_maxStep_member[OF this, of points 0] assms(1) show ?thesis
      by (simp add: calculateClusterDiameter_fold pointDistance_sym[of points a b])
  qed
qed


lemma mergeInv_same_classes:
  assumes "mergeInv n st" "ufOk n u" "\<forall>y < n. repr (parent u) y = repr (parent (uf st)) y"
  shows "mergeInv n (st\<lparr>uf := u\<rparr>)"
proof -
  have S: "{y. y < n \<and> repr (parent u) y = r} = {y. y < n \<and> repr (parent (uf st)) y = r}" for r
    using assms(3) by auto
  have "\<exists>c. clusterMembers st r = Some c \<and> distinct c \<and> set c = {y. y < n \<and> repr (parent u) y = r}"
    if "r < n" "repr (parent u) r = r" for r
  proof -
    from that assms(3) have "repr (parent (uf st)) r = r" by auto
    with assms(1) that(1) show ?thesis unfolding mergeInv_def S by blast
  qed
  with assms(2) show ?thesis unfolding mergeInv_def by simp
qed

lemma safeInv_same_classes:
  assumes "safeInv points config n st" "\<forall>y < n. repr (parent u) y = repr (parent (uf st)) y"
  shows "safeInv points config n (st\<lparr>uf := u\<rparr>)"
proof -
  have "real (length c) \<le> maxClusterSize config \<and>
        (\<forall>a \<in> set c. \<forall>b \<in> set c. pointDistance points a b \<le> maxClusterDiameter config)"
    if "r < n" "repr (parent u) r = r" "clusterMembers st r = Some c" for r c
  proof -
    from that assms(2) have "repr (parent (uf st)) r = r" by auto
    with assms(1) that show ?thesis unfolding safeInv_def by blast
  qed
  then show ?thesis unfolding safeInv_def by simp
qed

lemma mergeStep_inv:
  assumes inv: "mergeInv n st" and i1: "index1 m < n" and i2: "index2 m < n"
  shows "\<exists>st'. mergeStep points config m st = Some (Inr st') \<and> mergeInv n st' \<and>
           (0 \<le> maxClusterDiameter config \<longrightarrow> safeInv points config n st \<longrightarrow>
              safeInv points config n st')"
proof -
  let ?p = "parent (uf st)"
  let ?r1 = "repr ?p (index1 m)" and ?r2 = "repr ?p (index2 m)"
  from inv have ok: "ufOk n (uf st)" by (simp add: mergeInv_def)
  then have f: "forest ?p" and l: "length ?p = n" by (auto simp: ufOk_def)
  from UnionFind_find_spec[OF ok i1] obtain u1 where
    u1: "UnionFind_find (uf st) (index1 m) = Some (u1, ?r1)" "ufOk n u1"
    "\<forall>y < n. repr (parent u1) y = repr ?p y" by blast
  from UnionFind_find_spec[OF u1(2) i2] u1(3) i2 obtain u2 where
    u2: "UnionFind_find u1 (index2 m) = Some (u2, ?r2)" "ufOk n u2"
    "\<forall>y < n. repr (parent u2) y = repr ?p y" by auto
  have skip: "mergeInv n (st\<lparr>uf := u2\<rparr>) \<and>
      (0 \<le> maxClusterDiameter config \<longrightarrow> safeInv points config n st \<longrightarrow>
         safeInv points config n (st\<lparr>uf := u2\<rparr>))"
    using mergeInv_same_classes[OF inv u2(2) u2(3)] safeInv_same_classes[OF _ u2(3)] by blast
  show ?thesis
  proof (cases "?r1 = ?r2")
    case True
    then have "mergeStep points config m st = Some (Inr (st\<lparr>uf := u2\<rparr>))"
      using u1(1) u2(1) by (simp add: mergeStep_def)
    with skip show ?thesis by blast
  next
    case ne: False
    have r1: "?r1 < n" "repr ?p ?r1 = ?r1" using repr_less[OF f] repr_idem[OF f] i1 l by auto
    have r2: "?r2 < n" "repr ?p ?r2 = ?r2" using repr_less[OF f] repr_idem[OF f] i2 l by auto
    from inv r1 obtain c1 where c1: "clusterMembers st ?r1 = Some c1" "distinct c1"
      "set c1 = {y. y < n \<and> repr ?p y = ?r1}" unfolding mergeInv_def by blast
    from inv r2 obtain c2 where c2: "clusterMembers st ?r2 = Some c2" "distinct c2"
      "set c2 = {y. y < n \<and> repr ?p y = ?r2}" unfolding mergeInv_def by blast
    show ?thesis
    proof (cases "real (length c1 + length c2) > maxClusterSize config")
      case True
      then have "mergeStep points config m st = Some (Inr (st\<lparr>uf := u2\<rparr>))"
        using u1(1) u2(1) ne c1(1) c2(1) by (simp add: mergeStep_def)
      with skip show ?thesis by blast
    next
      case small: False
      show ?thesis
      proof (cases "calculateClusterDiameter points (c1 @ c2) > maxClusterDiameter config")
        case True
        then have "mergeStep points config m st = Some (Inr (st\<lparr>uf := u2\<rparr>))"
          using u1(1) u2(1) ne c1(1) c2(1) small by (simp add: mergeStep_def)
        with skip show ?thesis by blast
      next
        case near: False
        from u2(3) i1 i2 ne have ne2: "repr (parent u2) (index1 m) \<noteq> repr (parent u2) (index2 m)"
          by simp
        from UnionFind_union_spec[OF u2(2) i1 i2 ne2] u2(3) i1 i2 obtain u3 new where
          u3: "UnionFind_union u2 (index1 m) (index2 m) = Some (u3, True)" "ufOk n u3"
          "new = ?r1 \<or> new = ?r2"
          "\<forall>z < n. repr (parent u3) z = (if repr (parent u2) z = ?r1 \<or> repr (parent u2) z = ?r2
                                          then new else repr (parent u2) z)"
          by auto
        from u3(4) u2(3) have rep3: "\<forall>z < n. repr (parent u3) z =
            (if repr ?p z = ?r1 \<or> repr ?p z = ?r2 then new else repr ?p z)" by simp
        with i1 have new1: "repr (parent u3) (index1 m) = new" by simp
        from UnionFind_find_spec[OF u3(2) i1] new1 obtain u4 where
          u4: "UnionFind_find u3 (index1 m) = Some (u4, new)" "ufOk n u4"
          "\<forall>y < n. repr (parent u4) y = repr (parent u3) y" by auto
        from u4(3) rep3 have rep4: "\<forall>z < n. repr (parent u4) z =
            (if repr ?p z = ?r1 \<or> repr ?p z = ?r2 then new else repr ?p z)" by simp
        define merged where "merged = newSet (c1 @ c2)"
        define cm where "cm = (\<lambda>k. if k = new then Some merged
                                   else if k = ?r1 \<or> k = ?r2 then None else clusterMembers st k)"
        define st' where "st' = \<lparr>uf = u4, clusterMembers = cm, matches = matches st @ [m]\<rparr>"
        have cm_eq: "(let cm1 = (clusterMembers st)(new \<mapsto> merged);
                    cm2 = (if new \<noteq> ?r1 then cm1(?r1 := None) else cm1);
                    cm3 = (if new \<noteq> ?r2 then cm2(?r2 := None) else cm2)
                in cm3) = cm"
          unfolding cm_def Let_def by (rule ext) auto
        have step: "mergeStep points config m st = Some (Inr st')"
          using u1(1) u2(1) ne c1(1) c2(1) small near u3(1) u4(1) cm_eq
          unfolding st'_def merged_def
          by (simp add: mergeStep_def Let_def)
        have newn: "new < n" using u3(3) r1 r2 by auto
        have set_merged: "set merged = {y. y < n \<and> repr (parent u4) y = new}"
        proof -
          have "set merged = {y. y < n \<and> (repr ?p y = ?r1 \<or> repr ?p y = ?r2)}"
            unfolding merged_def using c1(3) c2(3) by (auto simp: set_newSet)
          also have "\<dots> = {y. y < n \<and> repr (parent u4) y = new}"
          proof -
            have "(repr (parent u4) y = new) = (repr ?p y = ?r1 \<or> repr ?p y = ?r2)" if "y < n" for y
            proof (cases "repr ?p y = ?r1 \<or> repr ?p y = ?r2")
              case True
              with rep4 that show ?thesis by simp
            next
              case False
              with rep4 that have "repr (parent u4) y = repr ?p y" by simp
              with False u3(3) show ?thesis by auto
            qed
            then show ?thesis by auto
          qed
          finally show ?thesis .
        qed
        have other: "repr ?p r = r \<and> r \<noteq> ?r1 \<and> r \<noteq> ?r2 \<and> cm r = clusterMembers st r \<and>
                     {y. y < n \<and> repr (parent u4) y = r} = {y. y < n \<and> repr ?p y = r}"
          if "r < n" "repr (parent u4) r = r" "r \<noteq> new" for r
        proof -
          from rep4 that have a: "\<not> (repr ?p r = ?r1 \<or> repr ?p r = ?r2)" by auto
          with rep4 that have b: "repr ?p r = r" by auto
          with a have c: "r \<noteq> ?r1" "r \<noteq> ?r2" by auto
          have "{y. y < n \<and> repr (parent u4) y = r} = {y. y < n \<and> repr ?p y = r}"
            using rep4 that(3) c by auto
          with b c that(3) show ?thesis by (simp add: cm_def)
        qed
        have inv': "mergeInv n st'"
        proof -
          have "\<exists>c. cm r = Some c \<and> distinct c \<and> set c = {y. y < n \<and> repr (parent u4) y = r}"
            if "r < n" "repr (parent u4) r = r" for r
          proof (cases "r = new")
            case True
            then show ?thesis using set_merged by (simp add: cm_def merged_def distinct_newSet)
          next
            case False
            from other[OF that False] inv that(1) show ?thesis unfolding mergeInv_def by metis
          qed
          with u4(2) show ?thesis by (simp add: mergeInv_def st'_def)
        qed
        have safe': "safeInv points config n st'"
          if D: "0 \<le> maxClusterDiameter config" and safe: "safeInv points config n st"
        proof -
          have "real (length c) \<le> maxClusterSize config \<and>
                (\<forall>a \<in> set c. \<forall>b \<in> set c. pointDistance points a b \<le> maxClusterDiameter config)"
            if "r < n" "repr (parent u4) r = r" "cm r = Some c" for r c
          proof (cases "r = new")
            case True
            with that have c: "c = merged" by (simp add: cm_def)
            have "length merged \<le> length c1 + length c2"
              unfolding merged_def using length_newSet[of "c1 @ c2"] by simp
            with small have "real (length merged) \<le> maxClusterSize config" by linarith
            moreover have "pointDistance points a b \<le> maxClusterDiameter config"
              if "a \<in> set merged" "b \<in> set merged" for a b
            proof (rule diameter_bounds_pairs[where xs = "c1 @ c2"])
              show "calculateClusterDiameter points (c1 @ c2) \<le> maxClusterDiameter config"
                using near by simp
              show "0 \<le> maxClusterDiameter config" by (rule D)
              show "a \<in> set (c1 @ c2)" "b \<in> set (c1 @ c2)"
                using that by (simp_all add: merged_def set_newSet)
            qed
            ultimately show ?thesis using c by blast
          next
            case False
            from other[OF that(1,2) False] that(3) have "repr ?p r = r" "clusterMembers st r = Some c"
              by auto
            with safe that(1) show ?thesis unfolding safeInv_def by blast
          qed
          then show ?thesis by (simp add: safeInv_def st'_def)
        qed
        from step inv' safe' show ?thesis by blast
      qed
    qed
  qed
qed

lemma mergeLoop_inv:
  assumes "mergeInv n st" "\<forall>m \<in> set ms. index1 m < n \<and> index2 m < n"
  shows "\<exists>st'. mergeLoop points config ms st = Some (Inr st') \<and> mergeInv n st' \<and>
           (0 \<le> maxClusterDiameter config \<longrightarrow> safeInv points config n st \<longrightarrow>
              safeInv points config n st')"
  using assms
proof (induction ms arbitrary: st)
  case Nil
  then show ?case by simp
next
  case (Cons m ms)
  from Cons.prems have "index1 m < n" "index2 m < n" by auto
  from mergeStep_inv[OF Cons.prems(1) this, of points config] obtain st1 where
    st1: "mergeStep points config m st = Some (Inr st1)" "mergeInv n st1"
    "0 \<le> maxClusterDiameter config \<longrightarrow> safeInv points config n st \<longrightarrow> safeInv points config n st1"
    by blast
  from Cons.IH[OF st1(2)] Cons.prems(2) obtain st' where
    st': "mergeLoop points config ms st1 = Some (Inr st')" "mergeInv n st'"
    "0 \<le> maxClusterDiameter config \<longrightarrow> safeInv points config n st1 \<longrightarrow> safeInv points config n st'"
    by auto
  from st1 st' show ?case by auto
qed

lemma rootOf_identity: "x < n \<Longrightarrow> rootOf [0..<n] x x"
  by (rule rootOf_here) simp_all

lemma repr_identity: "x < n \<Longrightarrow> repr [0..<n] x = x"
  by (rule repr_eq) (rule rootOf_identity)

lemma ufOk_new: "ufOk n (UnionFind_new n)"
  unfolding ufOk_def UnionFind_new_def forest_def using rootOf_identity by auto

lemma mergeInv_initial: "mergeInv n (initialState n)"
proof -
  have "{y. y < n \<and> repr [0..<n] y = r} = {r}" if "r < n" for r
    using that repr_identity by auto
  then show ?thesis
    using ufOk_new[of n] by (simp add: mergeInv_def initialState_def UnionFind_new_def)
qed

lemma safeInv_initial:
  assumes "1 \<le> maxClusterSize config" "0 \<le> maxClusterDiameter config"
  shows "safeInv points config n (initialState n)"
  using assms by (auto simp: safeInv_def initialState_def pointDistance_same)

lemma collectMatches_spec:
  "\<exists>ms. collectMatches points config ps = Some ms \<and>
        map (\<lambda>m. (index1 m, index2 m)) ms = filter (keptPair points config) ps"
proof (induction ps)
  case Nil
  show ?case by simp
next
  case (Cons q ps)
  obtain i j where q: "q = (i, j)" by (cases q) auto
  obtain r where r: "checkDuplicate (points ! i) (points ! j) config = Some r"
    using checkDuplicate_total by blast
  from Cons obtain ms where ms: "collectMatches points config ps = Some ms"
    "map (\<lambda>m. (index1 m, index2 m)) ms = filter (keptPair points config) ps" by blast
  show ?case using q r ms by (simp add: keptPair_def Let_def)
qed

lemma pairsOf_sorted: "sorted_wrt (<) xs \<Longrightarrow> (a, b) \<in> set (pairsOf xs) \<Longrightarrow> a < b"
  by (induction xs) auto

lemma pairsOf_upt: "(a, b) \<in> set (pairsOf [0..<n]) \<Longrightarrow> a < b \<and> b < n"
  using pairsOf_sorted[of "[0..<n]" a b] set_pairsOf[of a b "[0..<n]"] by simp

lemma potentialMatches_spec:
  "\<exists>ms. potentialMatches points config = Some ms \<and>
        map (\<lambda>m. (index1 m, index2 m)) ms = filter (keptPair points config) (pairsOf [0..<length points]) \<and>
        (\<forall>m \<in> set ms. index1 m < length points \<and> index2 m < length points)"
proof -
  from collectMatches_spec[of points config "pairsOf [0..<length points]"] obtain ms where
    ms: "potentialMatches points config = Some ms"
    "map (\<lambda>m. (index1 m, index2 m)) ms = filter (keptPair points config) (pairsOf [0..<length points])"
    by (auto simp: potentialMatches_def)
  have "index1 m < length points \<and> index2 m < length points" if "m \<in> set ms" for m
  proof -
    from that have "(index1 m, index2 m) \<in> set (map (\<lambda>m. (index1 m, index2 m)) ms)" by force
    with ms(2) have "(index1 m, index2 m) \<in> set (pairsOf [0..<length points])" by simp
    from pairsOf_upt[OF this] show ?thesis by simp
  qed
  with ms show ?thesis by blast
qed







lemma set_sortByConfidence: "set (sortByConfidence ms) = set ms"
  by (simp add: sortByConfidence_def set_sortBy)

text \<open>Collecting the clusters.\<close>

lemma pushTo_keys:
  "map fst (pushTo r i cl) = (if r \<in> fst ` set cl then map fst cl else map fst cl @ [r])"
  by (auto simp: pushTo_def split_def)

lemma mset_push_existing:
  "distinct (map fst cl) \<Longrightarrow> r \<in> fst ` set cl \<Longrightarrow>
   mset (concat (map snd (map (\<lambda>(k, v). if k = r then (k, v @ [i]) else (k, v)) cl))) =
   add_mset i (mset (concat (map snd cl)))"
proof (induction cl)
  case Nil
  then show ?case by simp
next
  case (Cons e cl)
  obtain k v where e: "e = (k, v)" by (cases e) auto
  show ?case
  proof (cases "k = r")
    case True
    with Cons.prems e have "r \<notin> fst ` set cl" by auto
    then have "map (\<lambda>(k, v). if k = r then (k, v @ [i]) else (k, v)) cl = cl"
      by (induction cl) auto
    with True e show ?thesis by simp
  next
    case False
    with Cons e show ?thesis by auto
  qed
qed

lemma mset_pushTo:
  assumes "distinct (map fst cl)"
  shows "mset (concat (map snd (pushTo r i cl))) = add_mset i (mset (concat (map snd cl)))"
proof (cases "r \<in> fst ` set cl")
  case True
  with mset_push_existing[OF assms True, of i] show ?thesis by (simp add: pushTo_def)
next
  case False
  then have d: "distinct (map fst (cl @ [(r, [])]))" using assms by auto
  have "r \<in> fst ` set (cl @ [(r, [])])" by simp
  from mset_push_existing[OF d this, of i] False show ?thesis by (simp add: pushTo_def)
qed

lemma pushTo_member:
  assumes "(k, v) \<in> set (pushTo r i cl)"
  shows "\<exists>v'. ((k, v') \<in> set cl \<or> (k = r \<and> v' = [])) \<and> v = (if k = r then v' @ [i] else v')"
proof -
  let ?upd = "\<lambda>(k, v). if k = r then (k, v @ [i]) else (k, v)"
  have "set (pushTo r i cl) \<subseteq> ?upd ` set (cl @ [(r, [])])"
    unfolding pushTo_def by (cases "r \<in> fst ` set cl") auto
  with assms have "(k, v) \<in> ?upd ` set (cl @ [(r, [])])" by (rule rev_subsetD)
  then obtain e where e: "e \<in> set (cl @ [(r, [])])" "(k, v) = ?upd e"
    by (rule imageE)
  obtain k' v' where kv: "e = (k', v')" by (cases e) auto
  with e(2) have "k = k'" by (auto split: if_splits)
  with e kv show ?thesis by (auto split: if_splits)
qed

lemma keysOk_pushTo:
  assumes "keysOk f cl" "f i = r"
  shows "keysOk f (pushTo r i cl)"
proof -
  from assms(1) have "distinct (map fst (pushTo r i cl))" by (auto simp: pushTo_keys keysOk_def)
  moreover have "f j = k" if "(k, v) \<in> set (pushTo r i cl)" "j \<in> set v" for k v j
  proof -
    from pushTo_member[OF that(1)] obtain v' where
      e: "(k, v') \<in> set cl \<or> (k = r \<and> v' = [])" "v = (if k = r then v' @ [i] else v')" by blast
    from e(1) assms(1) have old: "\<forall>j \<in> set v'. f j = k" by (auto simp: keysOk_def)
    from e(2) that(2) old assms(2) show ?thesis by (auto split: if_splits)
  qed
  ultimately show ?thesis unfolding keysOk_def by blast
qed

lemma fold_pushTo:
  assumes "keysOk f cl"
  shows "keysOk f (fold (\<lambda>i. pushTo (f i) i) is cl) \<and>
         mset (concat (map snd (fold (\<lambda>i. pushTo (f i) i) is cl))) = mset (concat (map snd cl)) + mset is"
  using assms
proof (induction "is" arbitrary: cl)
  case Nil
  then show ?case by simp
next
  case (Cons i "is")
  have k: "keysOk f (pushTo (f i) i cl)" using Cons.prems by (simp add: keysOk_pushTo)
  from Cons.prems have "distinct (map fst cl)" by (simp add: keysOk_def)
  from mset_pushTo[OF this, of "f i" i] Cons.IH[OF k] show ?case by simp
qed

lemma getClustersLoop_spec:
  assumes "ufOk n u" "\<forall>i \<in> set is. i < n"
  shows "\<exists>u'. getClustersLoop is u cl = Some (u', fold (\<lambda>i. pushTo (repr (parent u) i) i) is cl)"
  using assms
proof (induction "is" arbitrary: u cl)
  case Nil
  then show ?case by simp
next
  case (Cons i "is")
  from Cons.prems have i: "i < n" by simp
  from UnionFind_find_spec[OF Cons.prems(1) i] obtain u1 where
    u1: "UnionFind_find u i = Some (u1, repr (parent u) i)" "ufOk n u1"
    "\<forall>y < n. repr (parent u1) y = repr (parent u) y" by blast
  from Cons.IH[OF u1(2), of "pushTo (repr (parent u) i) i cl"] Cons.prems(2) obtain u' where
    u': "getClustersLoop is u1 (pushTo (repr (parent u) i) i cl) =
         Some (u', fold (\<lambda>i. pushTo (repr (parent u1) i) i) is (pushTo (repr (parent u) i) i cl))"
    by auto
  have "fold (\<lambda>i. pushTo (repr (parent u1) i) i) is a = fold (\<lambda>i. pushTo (repr (parent u) i) i) is a" for a
    by (rule fold_cong) (use u1(3) Cons.prems(2) in auto)
  with u1(1) u' show ?case by simp
qed

lemma UnionFind_getClusters_spec:
  assumes "ufOk n u"
  shows "\<exists>u' clusters. UnionFind_getClusters u = Some (u', clusters) \<and>
           keysOk (repr (parent u)) clusters \<and>
           mset (concat (map snd clusters)) = mset [0..<n]"
proof -
  from assms have l: "length (parent u) = n" by (simp add: ufOk_def)
  from getClustersLoop_spec[OF assms, of "[0..<n]" "[]"] obtain u' where
    "getClustersLoop [0..<n] u [] = Some (u', fold (\<lambda>i. pushTo (repr (parent u) i) i) [0..<n] [])"
    by auto
  moreover have "keysOk (repr (parent u)) []" by (simp add: keysOk_def)
  from fold_pushTo[OF this, of "[0..<n]"]
  have "keysOk (repr (parent u)) (fold (\<lambda>i. pushTo (repr (parent u) i) i) [0..<n] [])"
    "mset (concat (map snd (fold (\<lambda>i. pushTo (repr (parent u) i) i) [0..<n] []))) = mset [0..<n]"
    by auto
  ultimately show ?thesis using l by (auto simp: UnionFind_getClusters_def)
qed

lemma members_buildGroup: "members (buildGroup points ms cluster) = snd cluster"
  by (cases cluster) (simp add: buildGroup_def Let_def)

lemma map_members_buildGroup: "map members (map (buildGroup points ms) clusters) = map snd clusters"
  by (simp add: members_buildGroup comp_def)

text \<open>The run of \<open>findDuplicateGroups\<close> on two or more points.\<close>

lemma findDuplicateGroups_run:
  assumes "length points \<ge> 2"
  shows "\<exists>cands st u' clusters.
      potentialMatches points config = Some cands \<and>
      mergeLoop points config (sortByConfidence cands) (initialState (length points)) = Some (Inr st) \<and>
      mergeInv (length points) st \<and>
      (1 \<le> maxClusterSize config \<longrightarrow> 0 \<le> maxClusterDiameter config \<longrightarrow>
         safeInv points config (length points) st) \<and>
      UnionFind_getClusters (uf st) = Some (u', clusters) \<and>
      keysOk (repr (parent (uf st))) clusters \<and>
      mset (concat (map snd clusters)) = mset [0..<length points] \<and>
      findDuplicateGroups points config = Some (Inr (map (buildGroup points (matches st)) clusters))"
proof -
  let ?n = "length points"
  from potentialMatches_spec[of points config] obtain cands where
    c: "potentialMatches points config = Some cands"
    "\<forall>m \<in> set cands. index1 m < ?n \<and> index2 m < ?n" by blast
  then have "\<forall>m \<in> set (sortByConfidence cands). index1 m < ?n \<and> index2 m < ?n"
    by (simp add: set_sortByConfidence)
  from mergeLoop_inv[OF mergeInv_initial this, of points config] obtain st where
    st: "mergeLoop points config (sortByConfidence cands) (initialState ?n) = Some (Inr st)"
    "mergeInv ?n st"
    "0 \<le> maxClusterDiameter config \<longrightarrow> safeInv points config ?n (initialState ?n) \<longrightarrow>
       safeInv points config ?n st" by blast
  from st(2) have "ufOk ?n (uf st)" by (simp add: mergeInv_def)
  from UnionFind_getClusters_spec[OF this] obtain u' clusters where
    g: "UnionFind_getClusters (uf st) = Some (u', clusters)"
    "keysOk (repr (parent (uf st))) clusters"
    "mset (concat (map snd clusters)) = mset [0..<?n]" by blast
  have "length points \<noteq> 0" "length points \<noteq> 1" using assms by auto
  then have "findDuplicateGroups points config = Some (Inr (map (buildGroup points (matches st)) clusters))"
    using c(1) st(1) g(1) by (simp add: findDuplicateGroups_def Let_def)
  moreover have "1 \<le> maxClusterSize config \<longrightarrow> 0 \<le> maxClusterDiameter config \<longrightarrow>
         safeInv points config ?n st"
    using st(3) safeInv_initial by blast
  ultimately show ?thesis using c(1) st(1,2) g by blast
qed

section \<open>The clusters returned\<close>

text \<open>
  Claim C1. For every list of records and every configuration \<open>findDuplicateGroups\<close> returns
  a list of groups, and the member lists of the groups partition the indices of the input:
  taken together they hold every index below the number of points exactly once.
\<close>

theorem findDuplicateGroups_partition:
  "\<exists>gs. findDuplicateGroups points config = Some (Inr gs) \<and>
        distinct (concat (map members gs)) \<and>
        set (concat (map members gs)) = {0..<length points}"
proof -
  consider "length points = 0" | "length points = 1" | "length points \<ge> 2" by linarith
  then show ?thesis
  proof cases
    case 1
    then show ?thesis by (simp add: findDuplicateGroups_def)
  next
    case 2
    then show ?thesis by (simp add: findDuplicateGroups_def)
  next
    case 3
    from findDuplicateGroups_run[OF 3, of config] obtain cands st u' clusters where
      "potentialMatches points config = Some cands \<and>
      mergeLoop points config (sortByConfidence cands) (initialState (length points)) = Some (Inr st) \<and>
      mergeInv (length points) st \<and>
      (1 \<le> maxClusterSize config \<longrightarrow> 0 \<le> maxClusterDiameter config \<longrightarrow>
         safeInv points config (length points) st) \<and>
      UnionFind_getClusters (uf st) = Some (u', clusters) \<and>
      keysOk (repr (parent (uf st))) clusters \<and>
      mset (concat (map snd clusters)) = mset [0..<length points] \<and>
      findDuplicateGroups points config = Some (Inr (map (buildGroup points (matches st)) clusters))"
      by blast
    then have r: "mset (concat (map snd clusters)) = mset [0..<length points]"
      "findDuplicateGroups points config = Some (Inr (map (buildGroup points (matches st)) clusters))"
      by simp_all
    from mset_eq_imp_distinct_iff[OF r(1)] have d: "distinct (concat (map snd clusters))"
      by simp
    from mset_eq_setD[OF r(1)] have s: "set (concat (map snd clusters)) = {0..<length points}"
      by simp
    let ?gs = "map (buildGroup points (matches st)) clusters"
    have "distinct (concat (map members ?gs))" "set (concat (map members ?gs)) = {0..<length points}"
      unfolding map_members_buildGroup by (rule d, rule s)
    with r(2) show ?thesis by blast
  qed
qed








end
